theory Spec2Isabelle
  imports Complex_Main "HOL-Library.AList"
begin

section \<open>The EEG cleaner log: data model\<close>

text \<open>
  The repository keeps one JSON file, \<^verbatim>\<open>eeg_cleaner.json\<close>, per directory
  (\<^verbatim>\<open>cleaner/io.py\<close>) and reapplies the decisions stored there to MNE objects
  (\<^verbatim>\<open>cleaner/applier.py\<close>).

  A \<^verbatim>\<open>pathlib.Path\<close> is the list of its components; \<open>parent\<close> and \<open>name\<close> are the
  attributes of the same names (the parent of the top is the top, its name is empty).
\<close>

type_synonym path = "string list"

definition parent :: "path \<Rightarrow> path" where
  "parent p = butlast p"

definition name :: "path \<Rightarrow> string" where
  "name p = (case rev p of [] \<Rightarrow> [] | c # _ \<Rightarrow> c)"

text \<open>
  The exceptions. The source raises \<^verbatim>\<open>ValueError\<close> with a message for the first
  three; they are told apart here by what the message says. \<open>StorageUnavailable\<close>
  stands for a failing \<^verbatim>\<open>json.load\<close> or a failing \<^verbatim>\<open>git describe\<close>
  subprocess, \<open>KeyError\<close> and \<open>IndexError\<close> for the Python exceptions of these names.
\<close>

datatype field =
  Tmin | Tmax | Events | ChNames | FitParams | NComponents | Highpass | Lowpass | Sfreq

datatype error =
  InvalidKind | MissingLog | ParameterMismatch field
  | StorageUnavailable | KeyError | IndexError

text \<open>
  The stored records are JSON objects; a key that may be missing is an \<open>option\<close>.
  Floats are reals, segment and component indices are naturals, event onset samples
  are integers. \<^verbatim>\<open>fit_params\<close> is a dict that the code only compares with
  \<^verbatim>\<open>!=\<close>; it is kept as the list of its items in key order.
\<close>

record epochs_params =
  p_tmin :: real
  p_tmax :: real
  p_events :: "int list"

record ica_params =
  p_ch_names :: "string list"
  p_fit_params :: "(string \<times> string) list"
  p_n_components :: "nat option"
  p_highpass :: real
  p_lowpass :: real
  p_sfreq :: real

record raw_log =
  r_bads :: "string list option"

record epochs_log =
  e_params :: "epochs_params option"
  e_bads :: "string list option"
  e_selection :: "nat list option"

record ica_log =
  i_params :: "ica_params option"
  i_exclude :: "nat list option"

text \<open>
  The top-level object: the four keys the code knows, each possibly missing, and the
  other keys of the file, which the code never touches.
\<close>

record logs =
  raws :: "(string \<times> raw_log) list option"
  epochs :: "(string \<times> epochs_log) list option"
  icas :: "(string \<times> ica_log) list option"
  config :: "(string \<times> string) list option"
  extra :: "(string \<times> string) list"

definition empty_logs :: logs where
  "empty_logs = \<lparr>raws = None, epochs = None, icas = None, config = None, extra = []\<rparr>"

text \<open>
  The file system maps the path of a regular file to what it holds: a log, or data
  that is not a log (an artifact file, or text that \<^verbatim>\<open>json.load\<close> rejects).
  Directories are not tracked; writing a file always succeeds.
\<close>

datatype node = Data | Json logs

type_synonym fs = "path \<Rightarrow> node option"

definition is_file :: "fs \<Rightarrow> path \<Rightarrow> bool" where
  "is_file fs p = (fs p \<noteq> None)"

section \<open>\<^verbatim>\<open>cleaner/io.py\<close>\<close>

definition get_json_fname :: "fs \<Rightarrow> path \<Rightarrow> path" where
  "get_json_fname fs path =
     (if is_file fs path then parent path else path) @ [''eeg_cleaner.json'']"

text \<open>The three \<^verbatim>\<open>if "..." not in logs\<close> statements of \<^verbatim>\<open>read_log\<close> and \<^verbatim>\<open>save_log\<close>.\<close>

definition fill_keys :: "logs \<Rightarrow> logs" where
  "fill_keys l =
     l\<lparr>raws := Some (case raws l of None \<Rightarrow> [] | Some r \<Rightarrow> r),
       epochs := Some (case epochs l of None \<Rightarrow> [] | Some e \<Rightarrow> e),
       icas := Some (case icas l of None \<Rightarrow> [] | Some i \<Rightarrow> i)\<rparr>"

text \<open>
  The \<^verbatim>\<open>config\<close> statement: a missing \<^verbatim>\<open>config\<close> is created with the current
  hash; an existing one is read at \<^verbatim>\<open>"version"\<close> (a \<^verbatim>\<open>KeyError\<close> when that key is
  missing) and only a warning is logged when the hash differs.
\<close>

definition fill_config :: "string \<Rightarrow> logs \<Rightarrow> error + logs" where
  "fill_config git_hash l =
     (case config l of
        None \<Rightarrow> Inr (l\<lparr>config := Some [(''version'', git_hash)]\<rparr>)
      | Some c \<Rightarrow>
          (case map_of c ''version'' of
             None \<Rightarrow> Inl KeyError
           | Some prev_hash \<Rightarrow> Inr l))"

text \<open>
  \<open>save_log\<close> completes the caller's dict in place and dumps it; the completed dict
  is returned here, since the caller keeps using it. \<open>git\<close> is what
  \<^verbatim>\<open>_get_git_hash()\<close> returns, \<open>None\<close> when the subprocess fails.
\<close>

definition save_log :: "string option \<Rightarrow> path \<Rightarrow> logs \<Rightarrow> fs \<Rightarrow> (error + logs) \<times> fs" where
  "save_log git path l fs =
     (let json_fname = get_json_fname fs path;
          l1 = fill_keys l
      in case git of
           None \<Rightarrow> (Inl StorageUnavailable, fs)
         | Some git_hash \<Rightarrow>
             (case fill_config git_hash l1 of
                Inl e \<Rightarrow> (Inl e, fs)
              | Inr l2 \<Rightarrow> (Inr l2, fs(json_fname \<mapsto> Json l2))))"

definition load_json :: "fs \<Rightarrow> path \<Rightarrow> error + logs" where
  "load_json fs json_fname =
     (case fs json_fname of
        None \<Rightarrow> Inr empty_logs
      | Some Data \<Rightarrow> Inl StorageUnavailable
      | Some (Json l) \<Rightarrow> Inr l)"

definition read_log :: "string option \<Rightarrow> path \<Rightarrow> fs \<Rightarrow> (error + logs) \<times> fs" where
  "read_log git path fs =
     (let json_fname = get_json_fname fs path
      in case load_json fs json_fname of
           Inl e \<Rightarrow> (Inl e, fs)
         | Inr l \<Rightarrow>
             (let l1 = fill_keys l
              in case git of
                   None \<Rightarrow> (Inl StorageUnavailable, fs)
                 | Some git_hash \<Rightarrow>
                     (case fill_config git_hash l1 of
                        Inl e \<Rightarrow> (Inl e, fs)
                      | Inr l2 \<Rightarrow> save_log git path l2 fs)))"

subsection \<open>The artifacts\<close>

text \<open>
  What the code reads of the three MNE types. A raw recording: the name of its first
  file and \<^verbatim>\<open>info["bads"]\<close>. An epochs object: \<open>kept\<close> has one row per segment
  still present, the original index of the segment (\<^verbatim>\<open>selection\<close>) and its event
  onset sample (\<^verbatim>\<open>events[:, 0]\<close>); \<open>drop_log\<close> has one entry per original segment,
  the reasons it was dropped for. An ICA: the six compared parameters and
  \<^verbatim>\<open>exclude\<close>. \<open>Unrecognised\<close> is an object of any other type.
\<close>

record raw_inst =
  filenames0 :: path
  raw_bads :: "string list"

record epochs_inst =
  filename :: path
  tmin :: real
  tmax :: real
  kept :: "(nat \<times> int) list"
  bads :: "string list"
  drop_log :: "string list list"

record ica_inst =
  ch_names :: "string list"
  fit_params :: "(string \<times> string) list"
  n_components :: "nat option"
  highpass :: real
  lowpass :: real
  sfreq :: real
  exclude :: "nat list"

datatype inst = Raw raw_inst | Epochs epochs_inst | Ica ica_inst | Unrecognised

definition selection :: "epochs_inst \<Rightarrow> nat list" where
  "selection e = map fst (kept e)"

definition events0 :: "epochs_inst \<Rightarrow> int list" where
  "events0 e = map snd (kept e)"

subsection \<open>The parameter checks\<close>

text \<open>\<^verbatim>\<open>np.intersect1d\<close>: the sorted, unique values that are in both arrays.\<close>

definition intersect1d :: "nat list \<Rightarrow> nat list \<Rightarrow> nat list" where
  "intersect1d xs ys = sort (remdups (filter (\<lambda>x. x \<in> set ys) xs))"

text \<open>
  Both checks write the snapshot into \<open>t_log\<close> when it has none; the dict after the
  call is the result.
\<close>

definition check_epochs_params :: "epochs_inst \<Rightarrow> epochs_log \<Rightarrow> error + epochs_log" where
  "check_epochs_params ep t_log =
     (case e_params t_log of
        None \<Rightarrow>
          Inr (t_log\<lparr>e_params :=
                 Some \<lparr>p_tmin = tmin ep, p_tmax = tmax ep, p_events = events0 ep\<rparr>\<rparr>)
      | Some params \<Rightarrow>
          if tmin ep \<noteq> p_tmin params then Inl (ParameterMismatch Tmin)
          else if tmax ep \<noteq> p_tmax params then Inl (ParameterMismatch Tmax)
          else
            (let this_selection = selection ep;
                 prev_selection =
                   (case e_selection t_log of
                      None \<Rightarrow> [0..<length (kept ep)]
                    | Some s \<Rightarrow> s);
                 inter = intersect1d this_selection prev_selection;
                 to_check = map snd (filter (\<lambda>(x, ev). x \<in> set inter) (kept ep));
                 prev_events = p_events params
             in if list_all (\<lambda>x. x \<in> set prev_events) to_check then Inr t_log
                else Inl (ParameterMismatch Events)))"

definition check_ica_params :: "ica_inst \<Rightarrow> ica_log \<Rightarrow> error + ica_log" where
  "check_ica_params ica t_log =
     (case i_params t_log of
        None \<Rightarrow>
          Inr (t_log\<lparr>i_params :=
                 Some \<lparr>p_ch_names = ch_names ica, p_fit_params = fit_params ica,
                       p_n_components = n_components ica, p_highpass = highpass ica,
                       p_lowpass = lowpass ica, p_sfreq = sfreq ica\<rparr>\<rparr>)
      | Some params \<Rightarrow>
          if ch_names ica \<noteq> p_ch_names params then Inl (ParameterMismatch ChNames)
          else if fit_params ica \<noteq> p_fit_params params then Inl (ParameterMismatch FitParams)
          else if n_components ica \<noteq> p_n_components params
            then Inl (ParameterMismatch NComponents)
          else if highpass ica \<noteq> p_highpass params then Inl (ParameterMismatch Highpass)
          else if lowpass ica \<noteq> p_lowpass params then Inl (ParameterMismatch Lowpass)
          else if sfreq ica \<noteq> p_sfreq params then Inl (ParameterMismatch Sfreq)
          else Inr t_log)"

subsection \<open>\<^verbatim>\<open>update_log\<close>\<close>

text \<open>
  \<^verbatim>\<open>t_log = logs["raws"].get(fname, {})\<close> returns the stored dict itself when the
  name is present, and the assignments that follow change that object. To keep this
  visible the records of one mapping are put in a store: the mapping holds an address
  for each name, the store holds the record at each address. \<open>objects\<close> is what
  \<^verbatim>\<open>json.load\<close> builds (one fresh object per entry), \<open>dump\<close> what \<^verbatim>\<open>json.dump\<close>
  writes.
\<close>

definition objects :: "(string \<times> 'r) list \<Rightarrow> (string \<times> nat) list \<times> 'r list" where
  "objects kvs = (zip (map fst kvs) [0..<length kvs], map snd kvs)"

definition dump :: "(string \<times> nat) list \<Rightarrow> 'r list \<Rightarrow> (string \<times> 'r) list" where
  "dump d heap = map (\<lambda>(k, a). (k, heap ! a)) d"

text \<open>\<^verbatim>\<open>d.get(k, {})\<close>: the address stored at \<open>k\<close>, or that of a new object.\<close>

definition dict_get :: "(string \<times> nat) list \<Rightarrow> 'r list \<Rightarrow> string \<Rightarrow> 'r \<Rightarrow> nat \<times> 'r list" where
  "dict_get d heap k dflt =
     (case map_of d k of
        Some a \<Rightarrow> (a, heap)
      | None \<Rightarrow> (length heap, heap @ [dflt]))"

text \<open>\<^verbatim>\<open>if k not in d: d[k] = t_log\<close>.\<close>

definition set_if_absent :: "(string \<times> nat) list \<Rightarrow> string \<Rightarrow> nat \<Rightarrow> (string \<times> nat) list" where
  "set_if_absent d k a = (if map_of d k = None then d @ [(k, a)] else d)"

definition update_raws :: "raw_inst \<Rightarrow> (string \<times> raw_log) list \<Rightarrow> (string \<times> raw_log) list" where
  "update_raws r rs =
     (let fname = name (filenames0 r);
          (d, heap) = objects rs;
          (t_log, heap1) = dict_get d heap fname \<lparr>r_bads = None\<rparr>;
          heap2 = heap1[t_log := (heap1 ! t_log)\<lparr>r_bads := Some (raw_bads r)\<rparr>]
      in dump (set_if_absent d fname t_log) heap2)"

text \<open>
  The list \<^verbatim>\<open>dropped\<close> that the epochs branch computes is only logged; it is left out.
\<close>

definition update_epochs ::
  "epochs_inst \<Rightarrow> (string \<times> epochs_log) list \<Rightarrow> error + (string \<times> epochs_log) list" where
  "update_epochs ep es =
     (let fname = name (filename ep);
          (d, heap) = objects es;
          (t_log, heap1) =
            dict_get d heap fname \<lparr>e_params = None, e_bads = None, e_selection = None\<rparr>
      in case check_epochs_params ep (heap1 ! t_log) of
           Inl e \<Rightarrow> Inl e
         | Inr checked \<Rightarrow>
             (let heap2 = heap1[t_log := checked];
                  heap3 = heap2[t_log := (heap2 ! t_log)\<lparr>e_bads := Some (bads ep)\<rparr>];
                  heap4 = heap3[t_log := (heap3 ! t_log)\<lparr>e_selection := Some (selection ep)\<rparr>]
              in Inr (dump (set_if_absent d fname t_log) heap4)))"

definition update_icas ::
  "path \<Rightarrow> ica_inst \<Rightarrow> (string \<times> ica_log) list \<Rightarrow> error + (string \<times> ica_log) list" where
  "update_icas path ica cs =
     (let fname = name path;
          (d, heap) = objects cs;
          (t_log, heap1) = dict_get d heap fname \<lparr>i_params = None, i_exclude = None\<rparr>
      in case check_ica_params ica (heap1 ! t_log) of
           Inl e \<Rightarrow> Inl e
         | Inr checked \<Rightarrow>
             (let heap2 = heap1[t_log := checked];
                  heap3 = heap2[t_log := (heap2 ! t_log)\<lparr>i_exclude := Some (exclude ica)\<rparr>]
              in Inr (dump (set_if_absent d fname t_log) heap3)))"

text \<open>
  The branch on the type of \<open>inst\<close>: the dict \<open>logs\<close> after it, or the exception of
  the check. \<^verbatim>\<open>logs["raws"]\<close> on a dict without that key is a \<^verbatim>\<open>KeyError\<close>.
\<close>

definition update_branch :: "path \<Rightarrow> inst \<Rightarrow> logs \<Rightarrow> error + logs" where
  "update_branch path i l =
     (case i of
        Raw r \<Rightarrow>
          (case raws l of
             None \<Rightarrow> Inl KeyError
           | Some rs \<Rightarrow> Inr (l\<lparr>raws := Some (update_raws r rs)\<rparr>))
      | Epochs ep \<Rightarrow>
          (case epochs l of
             None \<Rightarrow> Inl KeyError
           | Some es \<Rightarrow>
               (case update_epochs ep es of
                  Inl e \<Rightarrow> Inl e
                | Inr es' \<Rightarrow> Inr (l\<lparr>epochs := Some es'\<rparr>)))
      | Ica ica \<Rightarrow>
          (case icas l of
             None \<Rightarrow> Inl KeyError
           | Some cs \<Rightarrow>
               (case update_icas path ica cs of
                  Inl e \<Rightarrow> Inl e
                | Inr cs' \<Rightarrow> Inr (l\<lparr>icas := Some cs'\<rparr>)))
      | Unrecognised \<Rightarrow> Inr l)"

definition update_log :: "string option \<Rightarrow> path \<Rightarrow> inst \<Rightarrow> fs \<Rightarrow> (error + unit) \<times> fs" where
  "update_log git path i fs =
     (case read_log git path fs of
        (Inl e, fs1) \<Rightarrow> (Inl e, fs1)
      | (Inr l, fs1) \<Rightarrow>
          (case update_branch path i l of
             Inl e \<Rightarrow> (Inl e, fs1)
           | Inr l' \<Rightarrow>
               (case save_log git path l' fs1 of
                  (Inl e, fs2) \<Rightarrow> (Inl e, fs2)
                | (Inr _, fs2) \<Rightarrow> (Inr (), fs2))))"

section \<open>\<^verbatim>\<open>cleaner/applier.py\<close>\<close>

text \<open>\<^verbatim>\<open>logs[kind]\<close> for the three names that \<open>is_cleaned\<close> accepts: the keys of that mapping.\<close>

definition kind_keys :: "string \<Rightarrow> logs \<Rightarrow> string list option" where
  "kind_keys kind l =
     (if kind = ''raws'' then map_option (map fst) (raws l)
      else if kind = ''epochs'' then map_option (map fst) (epochs l)
      else map_option (map fst) (icas l))"

definition is_cleaned :: "string option \<Rightarrow> path \<Rightarrow> string \<Rightarrow> fs \<Rightarrow> (error + bool) \<times> fs" where
  "is_cleaned git path kind fs =
     (if kind \<notin> set [''raws'', ''epochs'', ''icas''] then (Inl InvalidKind, fs)
      else
        (let json_fname = get_json_fname fs path
         in if fs json_fname = None then (Inr False, fs)
            else
              (case read_log git (parent path) fs of
                 (Inl e, fs1) \<Rightarrow> (Inl e, fs1)
               | (Inr l, fs1) \<Rightarrow>
                   (case kind_keys kind l of
                      None \<Rightarrow> (Inl KeyError, fs1)
                    | Some t_log \<Rightarrow> (Inr (name path \<in> set t_log), fs1)))))"

text \<open>
  \<^verbatim>\<open>Epochs.drop(indices, reason)\<close> belongs to MNE, not to this repository. It is
  modelled after MNE's documentation and the capability the specification lists
  ("drop segments by position with an attached reason tag"): a position outside the
  segments still present is an \<^verbatim>\<open>IndexError\<close>; the rows at the other positions are
  kept, and the drop-log entry of every original index that is no longer selected
  becomes the reason.
\<close>

definition drop :: "nat list \<Rightarrow> string \<Rightarrow> epochs_inst \<Rightarrow> error + epochs_inst" where
  "drop indices reason ep =
     (if list_ex (\<lambda>i. length (kept ep) \<le> i) indices then Inl IndexError
      else
        (let keep = map snd (filter (\<lambda>(i, row). i \<notin> set indices) (enumerate 0 (kept ep)));
             gone = filter (\<lambda>k. k \<notin> set (map fst keep)) (selection ep)
         in if list_ex (\<lambda>k. length (drop_log ep) \<le> k) gone then Inl IndexError
            else Inr (ep\<lparr>kept := keep,
                         drop_log := fold (\<lambda>k dl. dl[k := [reason]]) gone (drop_log ep)\<rparr>)))"

text \<open>
  The loop of \<open>reject\<close> over \<^verbatim>\<open>enumerate(inst.drop_log)\<close>, with its two variables
  \<^verbatim>\<open>drop_idx\<close> and \<^verbatim>\<open>cur_idx\<close>.
\<close>

fun drop_idx_loop ::
  "nat list \<Rightarrow> (nat \<times> string list) list \<Rightarrow> nat list \<times> nat \<Rightarrow> nat list \<times> nat" where
  "drop_idx_loop to_drop [] (drop_idx, cur_idx) = (drop_idx, cur_idx)"
| "drop_idx_loop to_drop ((i_epoch, dlog) # rest) (drop_idx, cur_idx) =
     (if length dlog = 0
      then drop_idx_loop to_drop rest
             (if i_epoch \<in> set to_drop then drop_idx @ [cur_idx] else drop_idx, cur_idx + 1)
      else drop_idx_loop to_drop rest (drop_idx, cur_idx))"

text \<open>
  \<^verbatim>\<open>list(set(old_bads + inst.info["bads"]))\<close>: the elements without repetition. The
  order Python gives them is that of its hash table; nothing below depends on it.
\<close>

definition mix_bads :: "string list \<Rightarrow> string list \<Rightarrow> string list" where
  "mix_bads old_bads inst_bads = remdups (old_bads @ inst_bads)"

text \<open>
  The branches of \<open>reject\<close>. Here \<^verbatim>\<open>logs\<close> is local and never saved, so
  \<^verbatim>\<open>.get(fname, {})\<close> is read as a value.
\<close>

definition reject_raw :: "raw_inst \<Rightarrow> (string \<times> raw_log) list \<Rightarrow> raw_inst" where
  "reject_raw r rs =
     (let fname = name (filenames0 r);
          t_log = (case map_of rs fname of None \<Rightarrow> \<lparr>r_bads = None\<rparr> | Some t \<Rightarrow> t);
          old_bads = (case r_bads t_log of None \<Rightarrow> [] | Some b \<Rightarrow> b)
      in r\<lparr>raw_bads := mix_bads old_bads (raw_bads r)\<rparr>)"

definition reject_epochs ::
  "epochs_inst \<Rightarrow> (string \<times> epochs_log) list \<Rightarrow> error + epochs_inst" where
  "reject_epochs ep es =
     (let fname = name (filename ep);
          t_log0 = (case map_of es fname of
                      None \<Rightarrow> \<lparr>e_params = None, e_bads = None, e_selection = None\<rparr>
                    | Some t \<Rightarrow> t)
      in case check_epochs_params ep t_log0 of
           Inl e \<Rightarrow> Inl e
         | Inr t_log \<Rightarrow>
             (let old_bads = (case e_bads t_log of None \<Rightarrow> [] | Some b \<Rightarrow> b);
                  ep1 = ep\<lparr>bads := mix_bads old_bads (bads ep)\<rparr>;
                  prev_selection =
                    (case e_selection t_log of None \<Rightarrow> selection ep1 | Some s \<Rightarrow> s);
                  to_drop = filter (\<lambda>x. x \<notin> set prev_selection) (selection ep1);
                  drop_idx =
                    fst (drop_idx_loop to_drop (enumerate 0 (drop_log ep1)) ([], 0))
              in drop drop_idx ''Inspection'' ep1))"

definition reject_ica :: "path \<Rightarrow> ica_inst \<Rightarrow> (string \<times> ica_log) list \<Rightarrow> error + ica_inst" where
  "reject_ica path ica cs =
     (let fname = name path;
          t_log0 = (case map_of cs fname of
                      None \<Rightarrow> \<lparr>i_params = None, i_exclude = None\<rparr>
                    | Some t \<Rightarrow> t)
      in case check_ica_params ica t_log0 of
           Inl e \<Rightarrow> Inl e
         | Inr t_log \<Rightarrow>
             Inr (ica\<lparr>exclude := (case i_exclude t_log of None \<Rightarrow> [] | Some x \<Rightarrow> x)\<rparr>))"

definition reject_branch :: "path \<Rightarrow> inst \<Rightarrow> logs \<Rightarrow> error + inst" where
  "reject_branch path i l =
     (case i of
        Raw r \<Rightarrow>
          (case raws l of
             None \<Rightarrow> Inl KeyError
           | Some rs \<Rightarrow> Inr (Raw (reject_raw r rs)))
      | Epochs ep \<Rightarrow>
          (case epochs l of
             None \<Rightarrow> Inl KeyError
           | Some es \<Rightarrow>
               (case reject_epochs ep es of
                  Inl e \<Rightarrow> Inl e
                | Inr ep' \<Rightarrow> Inr (Epochs ep')))
      | Ica ica \<Rightarrow>
          (case icas l of
             None \<Rightarrow> Inl KeyError
           | Some cs \<Rightarrow>
               (case reject_ica path ica cs of
                  Inl e \<Rightarrow> Inl e
                | Inr ica' \<Rightarrow> Inr (Ica ica')))
      | Unrecognised \<Rightarrow> Inr Unrecognised)"

definition reject :: "string option \<Rightarrow> path \<Rightarrow> inst \<Rightarrow> bool \<Rightarrow> fs \<Rightarrow> (error + inst) \<times> fs" where
  "reject git path i required fs =
     (let json_fname = get_json_fname fs path
      in if fs json_fname = None \<and> required then (Inl MissingLog, fs)
         else
           (case read_log git path fs of
              (Inl e, fs1) \<Rightarrow> (Inl e, fs1)
            | (Inr l, fs1) \<Rightarrow> (reject_branch path i l, fs1)))"

section \<open>Notions used in the statements\<close>

text \<open>
  A log whose \<^verbatim>\<open>config\<close>, when present, has a \<^verbatim>\<open>version\<close>: the files this program
  writes are of this kind, and the reads of \<^verbatim>\<open>logs["config"]["version"]\<close> succeed on them.
\<close>

definition version_ok :: "logs \<Rightarrow> bool" where
  "version_ok l = (case config l of None \<Rightarrow> True | Some c \<Rightarrow> map_of c ''version'' \<noteq> None)"

text \<open>The log with the missing keys filled in, as \<open>fill_keys\<close> and \<open>fill_config\<close> leave it.\<close>

definition healed :: "string \<Rightarrow> logs \<Rightarrow> logs" where
  "healed git_hash l =
     (fill_keys l)\<lparr>config :=
        Some (case config l of None \<Rightarrow> [(''version'', git_hash)] | Some c \<Rightarrow> c)\<rparr>"

text \<open>All four keys are present and \<^verbatim>\<open>config\<close> has a \<^verbatim>\<open>version\<close>.\<close>

definition has_schema :: "logs \<Rightarrow> bool" where
  "has_schema l =
     (raws l \<noteq> None \<and> epochs l \<noteq> None \<and> icas l \<noteq> None \<and>
      (case config l of None \<Rightarrow> False | Some c \<Rightarrow> map_of c ''version'' \<noteq> None))"

text \<open>The record of a file name in a log, and in the log stored at a path.\<close>

definition raw_record :: "logs \<Rightarrow> string \<Rightarrow> raw_log option" where
  "raw_record l f = (case raws l of None \<Rightarrow> None | Some rs \<Rightarrow> map_of rs f)"

definition epochs_record :: "logs \<Rightarrow> string \<Rightarrow> epochs_log option" where
  "epochs_record l f = (case epochs l of None \<Rightarrow> None | Some es \<Rightarrow> map_of es f)"

definition ica_record :: "logs \<Rightarrow> string \<Rightarrow> ica_log option" where
  "ica_record l f = (case icas l of None \<Rightarrow> None | Some cs \<Rightarrow> map_of cs f)"

definition stored_raw :: "fs \<Rightarrow> path \<Rightarrow> string \<Rightarrow> raw_log option" where
  "stored_raw fs q f = (case fs q of Some (Json l) \<Rightarrow> raw_record l f | _ \<Rightarrow> None)"

definition stored_epochs :: "fs \<Rightarrow> path \<Rightarrow> string \<Rightarrow> epochs_log option" where
  "stored_epochs fs q f = (case fs q of Some (Json l) \<Rightarrow> epochs_record l f | _ \<Rightarrow> None)"

definition stored_ica :: "fs \<Rightarrow> path \<Rightarrow> string \<Rightarrow> ica_log option" where
  "stored_ica fs q f = (case fs q of Some (Json l) \<Rightarrow> ica_record l f | _ \<Rightarrow> None)"



text \<open>What \<^verbatim>\<open>.get(fname, {})\<close> gives: the stored record, or an empty one.\<close>

definition raw_or_new :: "(string \<times> raw_log) list \<Rightarrow> string \<Rightarrow> raw_log" where
  "raw_or_new rs fname = (case map_of rs fname of None \<Rightarrow> \<lparr>r_bads = None\<rparr> | Some t \<Rightarrow> t)"

definition epochs_or_new :: "(string \<times> epochs_log) list \<Rightarrow> string \<Rightarrow> epochs_log" where
  "epochs_or_new es fname =
     (case map_of es fname of
        None \<Rightarrow> \<lparr>e_params = None, e_bads = None, e_selection = None\<rparr>
      | Some t \<Rightarrow> t)"

definition ica_or_new :: "(string \<times> ica_log) list \<Rightarrow> string \<Rightarrow> ica_log" where
  "ica_or_new cs fname =
     (case map_of cs fname of None \<Rightarrow> \<lparr>i_params = None, i_exclude = None\<rparr> | Some t \<Rightarrow> t)"

text \<open>The same, read from a log: the record of the file name, or an empty one.\<close>

definition epochs_or_empty :: "logs \<Rightarrow> string \<Rightarrow> epochs_log" where
  "epochs_or_empty l f =
     (case epochs_record l f of
        None \<Rightarrow> \<lparr>e_params = None, e_bads = None, e_selection = None\<rparr>
      | Some t \<Rightarrow> t)"

definition ica_or_empty :: "logs \<Rightarrow> string \<Rightarrow> ica_log" where
  "ica_or_empty l f =
     (case ica_record l f of None \<Rightarrow> \<lparr>i_params = None, i_exclude = None\<rparr> | Some t \<Rightarrow> t)"

text \<open>The bad channels stored for a raw file: none without a record or without a \<^verbatim>\<open>bads\<close> key.\<close>

definition stored_bads :: "logs \<Rightarrow> string \<Rightarrow> string list" where
  "stored_bads l f =
     (case raw_record l f of
        None \<Rightarrow> []
      | Some t \<Rightarrow> (case r_bads t of None \<Rightarrow> [] | Some b \<Rightarrow> b))"

text \<open>The six parameters of an ICA, as \<open>check_ica_params\<close> snapshots them.\<close>

definition params_of_ica :: "ica_inst \<Rightarrow> ica_params" where
  "params_of_ica ica =
     \<lparr>p_ch_names = ch_names ica, p_fit_params = fit_params ica,
      p_n_components = n_components ica, p_highpass = highpass ica,
      p_lowpass = lowpass ica, p_sfreq = sfreq ica\<rparr>"

text \<open>
  The event rule as the check applies it: every segment whose original index is both
  in the current selection and in the stored one (or, when none is stored, among the
  positions \<open>0 .. n - 1\<close> of the \<open>n\<close> current segments) has its onset sample in the
  stored list.
\<close>

definition onsets_agree :: "epochs_inst \<Rightarrow> epochs_log \<Rightarrow> epochs_params \<Rightarrow> bool" where
  "onsets_agree ep t p =
     (\<forall>i<length (kept ep).
        selection ep ! i \<in>
          set (selection ep) \<inter>
          set (case e_selection t of None \<Rightarrow> [0..<length (kept ep)] | Some s \<Rightarrow> s) \<longrightarrow>
        events0 ep ! i \<in> set (p_events p))"

text \<open>
  The invariant MNE keeps on an epochs object (\<^verbatim>\<open>_check_consistency\<close>): the selection
  lists, in order, the original indices whose drop-log entry is empty.
\<close>

definition selection_wf :: "epochs_inst \<Rightarrow> bool" where
  "selection_wf ep =
     (selection ep = filter (\<lambda>i. drop_log ep ! i = []) [0..<length (drop_log ep)])"

text \<open>The positions, counted from \<open>c\<close>, of the elements that satisfy \<open>P\<close>.\<close>

fun positions :: "('a \<Rightarrow> bool) \<Rightarrow> nat \<Rightarrow> 'a list \<Rightarrow> nat list" where
  "positions P c [] = []"
| "positions P c (x # xs) = (if P x then [c] else []) @ positions P (Suc c) xs"

section \<open>Example data\<close>

text \<open>
  A directory \<^verbatim>\<open>subj\<close> with one raw file, and the same directory with a log written
  by an older version (no \<^verbatim>\<open>epochs\<close> and \<^verbatim>\<open>icas\<close> keys, one key the code does not know).
\<close>

definition ex_file :: path where
  "ex_file = [''subj'', ''a_raw.fif'']"

definition ex_json :: path where
  "ex_json = [''subj'', ''eeg_cleaner.json'']"

definition ex_old_log :: logs where
  "ex_old_log =
     \<lparr>raws = Some [(''a_raw.fif'', \<lparr>r_bads = Some [''Cz'']\<rparr>)], epochs = None, icas = None,
      config = Some [(''version'', ''v0'')], extra = [(''notes'', ''checked'')]\<rparr>"

definition ex_old_fs :: fs where
  "ex_old_fs = [ex_file \<mapsto> Data, ex_json \<mapsto> Json ex_old_log]"

text \<open>
  Six segments, none dropped, and a log that kept the segments 0, 2 and 4 of the same
  file; an ICA with two excluded components stored and another one set at run time.
\<close>

definition ex_epochs :: epochs_inst where
  "ex_epochs =
     \<lparr>filename = [''subj'', ''a_epo.fif''], tmin = - 1, tmax = 2,
      kept = [(0, 100), (1, 200), (2, 300), (3, 400), (4, 500), (5, 600)],
      bads = [''Fz''], drop_log = [[], [], [], [], [], []]\<rparr>"

definition ex_epochs_log :: epochs_log where
  "ex_epochs_log =
     \<lparr>e_params = Some \<lparr>p_tmin = - 1, p_tmax = 2, p_events = [100, 300, 500]\<rparr>,
      e_bads = Some [''Cz''], e_selection = Some [0, 2, 4]\<rparr>"

definition ex_epochs_logs :: logs where
  "ex_epochs_logs =
     \<lparr>raws = Some [], epochs = Some [(''a_epo.fif'', ex_epochs_log)], icas = Some [],
      config = Some [(''version'', ''v1'')], extra = []\<rparr>"

definition ex_epochs_fs :: fs where
  "ex_epochs_fs = [[''subj'', ''a_epo.fif''] \<mapsto> Data, ex_json \<mapsto> Json ex_epochs_logs]"

definition ex_ica_file :: path where
  "ex_ica_file = [''subj'', ''a-ica.fif'']"

definition ex_ica :: ica_inst where
  "ex_ica =
     \<lparr>ch_names = [''Cz'', ''Fz''], fit_params = [(''max_iter'', ''500'')],
      n_components = Some 2, highpass = 1, lowpass = 40, sfreq = 250, exclude = [2]\<rparr>"

definition ex_ica_log :: ica_log where
  "ex_ica_log = \<lparr>i_params = Some (params_of_ica ex_ica), i_exclude = Some [1, 3]\<rparr>"

definition ex_ica_logs :: logs where
  "ex_ica_logs =
     \<lparr>raws = Some [], epochs = Some [], icas = Some [(''a-ica.fif'', ex_ica_log)],
      config = Some [(''version'', ''v1'')], extra = []\<rparr>"

definition ex_ica_fs :: fs where
  "ex_ica_fs = [ex_ica_file \<mapsto> Data, ex_json \<mapsto> Json ex_ica_logs]"

text \<open>
  The same directory with a log whose \<^verbatim>\<open>config\<close> has no \<^verbatim>\<open>version\<close>; the old log and
  the empty log as \<open>read_log\<close> completes them for version \<^verbatim>\<open>v1\<close>.
\<close>

definition ex_noversion_log :: logs where
  "ex_noversion_log =
     \<lparr>raws = Some [(''a_raw.fif'', \<lparr>r_bads = Some [''Cz'']\<rparr>)], epochs = None, icas = None,
      config = Some [], extra = []\<rparr>"

definition ex_noversion_fs :: fs where
  "ex_noversion_fs = [ex_file \<mapsto> Data, ex_json \<mapsto> Json ex_noversion_log]"

definition ex_healed_log :: logs where
  "ex_healed_log =
     \<lparr>raws = Some [(''a_raw.fif'', \<lparr>r_bads = Some [''Cz'']\<rparr>)], epochs = Some [],
      icas = Some [], config = Some [(''version'', ''v0'')],
      extra = [(''notes'', ''checked'')]\<rparr>"

definition ex_new_log :: logs where
  "ex_new_log =
     \<lparr>raws = Some [], epochs = Some [], icas = Some [],
      config = Some [(''version'', ''v1'')], extra = []\<rparr>"

text \<open>
  An epochs object from which the segments 0 and 2 were dropped, and a stored record
  for it that has a parameter snapshot but no selection.
\<close>

definition ex_gap_epochs :: epochs_inst where
  "ex_gap_epochs =
     \<lparr>filename = [''subj'', ''a_epo.fif''], tmin = - 1, tmax = 2,
      kept = [(1, 200), (3, 400)], bads = [],
      drop_log = [[''USER''], [], [''USER''], []]\<rparr>"

definition ex_gap_log :: epochs_log where
  "ex_gap_log =
     \<lparr>e_params = Some \<lparr>p_tmin = - 1, p_tmax = 2, p_events = [200]\<rparr>,
      e_bads = Some [], e_selection = None\<rparr>"

section \<open>Auxiliary facts\<close>

lemma fill_keys_idem: "fill_keys (fill_keys l) = fill_keys l"
  by (simp add: fill_keys_def)

lemma fill_config_healed: "version_ok l \<Longrightarrow> fill_config h (fill_keys l) = Inr (healed h l)"
  by (auto simp: version_ok_def fill_config_def healed_def fill_keys_def split: option.splits)

lemma fill_config_fails: "\<not> version_ok l \<Longrightarrow> fill_config h (fill_keys l) = Inl KeyError"
  by (auto simp: version_ok_def fill_config_def healed_def fill_keys_def split: option.splits)

lemma version_ok_healed: "version_ok l \<Longrightarrow> version_ok (healed h l)"
  by (auto simp: version_ok_def healed_def fill_keys_def split: option.splits)

lemma healed_idem: "version_ok l \<Longrightarrow> healed h (healed h l) = healed h l"
  by (auto simp: version_ok_def healed_def fill_keys_def split: option.splits)

lemma json_fname_upd:
  "get_json_fname (fs(get_json_fname fs p \<mapsto> x)) p = get_json_fname fs p"
  by (auto simp: get_json_fname_def is_file_def)

lemma save_log_ok:
  "version_ok l \<Longrightarrow> save_log (Some h) p l fs = (Inr (healed h l), fs(get_json_fname fs p \<mapsto> Json (healed h l)))"
  by (simp add: save_log_def Let_def fill_config_healed)

lemma read_log_ok:
  "load_json fs (get_json_fname fs p) = Inr l \<Longrightarrow> version_ok l \<Longrightarrow>
   read_log (Some h) p fs = (Inr (healed h l), fs(get_json_fname fs p \<mapsto> Json (healed h l)))"
  by (simp add: read_log_def Let_def fill_config_healed save_log_ok version_ok_healed healed_idem)

lemma read_log_cases:
  assumes "read_log git p fs = (r, fs')"
  shows "(fs' = fs \<and> (\<exists>e. r = Inl e)) \<or>
   (\<exists>h l. git = Some h \<and> load_json fs (get_json_fname fs p) = Inr l \<and> version_ok l \<and>
      r = Inr (healed h l) \<and> fs' = fs(get_json_fname fs p \<mapsto> Json (healed h l)))"
proof (cases "load_json fs (get_json_fname fs p)")
  case (Inl e)
  with assms have "r = Inl e" and "fs' = fs" by (simp_all add: read_log_def Let_def)
  then show ?thesis by blast
next
  case (Inr l)
  show ?thesis
  proof (cases git)
    case None
    with assms Inr show ?thesis by (auto simp: read_log_def Let_def)
  next
    case (Some h)
    show ?thesis
    proof (cases "version_ok l")
      case True
      with assms Inr Some show ?thesis by (auto simp: read_log_ok)
    next
      case False
      with assms Inr Some show ?thesis
        by (auto simp: read_log_def Let_def fill_config_fails)
    qed
  qed
qed

lemma save_log_cases:
  assumes "save_log git p l fs = (r, fs')"
  shows "(fs' = fs \<and> (\<exists>e. r = Inl e)) \<or>
   (\<exists>h. git = Some h \<and> version_ok l \<and>
      r = Inr (healed h l) \<and> fs' = fs(get_json_fname fs p \<mapsto> Json (healed h l)))"
proof (cases git)
  case None
  with assms show ?thesis by (auto simp: save_log_def Let_def)
next
  case (Some h)
  show ?thesis
  proof (cases "version_ok l")
    case True
    with assms Some show ?thesis by (auto simp: save_log_ok)
  next
    case False
    with assms Some show ?thesis
      by (auto simp: save_log_def Let_def fill_config_fails)
  qed
qed

lemma dump_zip:
  "(\<forall>i<length kvs. heap ! (m + i) = snd (kvs ! i)) \<Longrightarrow>
   dump (zip (map fst kvs) [m..<m + length kvs]) heap = kvs"
proof (induction kvs arbitrary: m)
  case Nil
  then show ?case by (simp add: dump_def)
next
  case (Cons kv kvs)
  have up: "[m..<m + length (kv # kvs)] = m # [Suc m..<Suc m + length kvs]"
    using upt_conv_Cons[of m "m + Suc (length kvs)"] by simp
  have h0: "heap ! m = snd kv" using Cons.prems[rule_format, of 0] by simp
  have "\<forall>i<length kvs. heap ! (Suc m + i) = snd (kvs ! i)"
    using Cons.prems[rule_format, of "Suc i" for i] by simp
  from Cons.IH[OF this] have "dump (zip (map fst kvs) [Suc m..<Suc m + length kvs]) heap = kvs" .
  then show ?case unfolding up using h0 by (simp add: dump_def)
qed

lemma map_of_zip_upt_None:
  "map_of (zip (map fst kvs) [m..<m + length kvs]) k = None \<longleftrightarrow> map_of kvs k = None"
proof (induction kvs arbitrary: m)
  case Nil
  then show ?case by simp
next
  case (Cons kv kvs)
  have up: "[m..<m + length (kv # kvs)] = m # [Suc m..<Suc m + length kvs]"
    using upt_conv_Cons[of m "m + Suc (length kvs)"] by simp
  show ?case unfolding up using Cons.IH[of "Suc m"] by (cases kv) simp
qed

lemma map_of_zip_upt_range:
  "map_of (zip (map fst kvs) [m..<m + length kvs]) k = Some a \<Longrightarrow> m \<le> a \<and> a < m + length kvs"
  by (auto dest!: map_of_SomeD set_zip_rightD)

lemma dump_update_present:
  "map_of (zip (map fst kvs) [m..<m + length kvs]) k = Some a \<Longrightarrow>
   m + length kvs \<le> length heap \<Longrightarrow>
   (\<forall>i<length kvs. heap ! (m + i) = snd (kvs ! i)) \<Longrightarrow>
   heap ! a = (case map_of kvs k of None \<Rightarrow> dflt | Some t \<Rightarrow> t) \<and>
   dump (zip (map fst kvs) [m..<m + length kvs]) (heap[a := v]) = AList.update k v kvs"
proof (induction kvs arbitrary: m)
  case Nil
  then show ?case by simp
next
  case (Cons kv kvs)
  obtain k0 v0 where kv: "kv = (k0, v0)" by (cases kv)
  have up: "[m..<m + length (kv # kvs)] = m # [Suc m..<Suc m + length kvs]"
    using upt_conv_Cons[of m "m + Suc (length kvs)"] by simp
  have h0: "heap ! m = v0" using Cons.prems(3)[rule_format, of 0] kv by simp
  have rest: "\<forall>i<length kvs. heap ! (Suc m + i) = snd (kvs ! i)"
    using Cons.prems(3)[rule_format, of "Suc i" for i] by simp
  show ?case
  proof (cases "k0 = k")
    case True
    with Cons.prems(1) kv have a: "a = m" unfolding up by simp
    have "\<forall>i<length kvs. heap[m := v] ! (Suc m + i) = snd (kvs ! i)"
      using rest by simp
    from dump_zip[OF this]
    have "dump (zip (map fst kvs) [Suc m..<Suc m + length kvs]) (heap[m := v]) = kvs" .
    moreover have "m < length heap" using Cons.prems(2) by simp
    ultimately show ?thesis unfolding up using True kv a h0
      by (simp add: dump_def)
  next
    case False
    with Cons.prems(1) kv
    have 1: "map_of (zip (map fst kvs) [Suc m..<Suc m + length kvs]) k = Some a"
      unfolding up by simp
    have 2: "Suc m + length kvs \<le> length heap" using Cons.prems(2) by simp
    note IH = Cons.IH[OF 1 2 rest]
    from map_of_zip_upt_range[OF 1] have "a \<noteq> m" by simp
    then show ?thesis unfolding up using False kv IH h0
      by (simp add: dump_def)
  qed
qed

lemma update_absent: "map_of kvs k = None \<Longrightarrow> AList.update k v kvs = kvs @ [(k, v)]"
  by (induction kvs) (auto split: if_splits)

lemma store_update:
  assumes "objects kvs = (d, heap)" and "dict_get d heap k dflt = (a, heap1)"
  shows "heap1 ! a = (case map_of kvs k of None \<Rightarrow> dflt | Some t \<Rightarrow> t)"
    and "a < length heap1"
    and "dump (set_if_absent d k a) (heap1[a := v]) = AList.update k v kvs"
proof -
  have d: "d = zip (map fst kvs) [0..<0 + length kvs]" and heap: "heap = map snd kvs"
    using assms(1) by (auto simp: objects_def)
  have agree: "\<forall>i<length kvs. heap ! (0 + i) = snd (kvs ! i)" by (simp add: heap)
  have "heap1 ! a = (case map_of kvs k of None \<Rightarrow> dflt | Some t \<Rightarrow> t) \<and> a < length heap1 \<and>
    dump (set_if_absent d k a) (heap1[a := v]) = AList.update k v kvs"
  proof (cases "map_of d k")
    case None
    then have nk: "map_of kvs k = None" using map_of_zip_upt_None[of kvs 0 k] d by simp
    from None assms(2) have a: "a = length heap" and h1: "heap1 = heap @ [dflt]"
      by (auto simp: dict_get_def)
    have "\<forall>i<length kvs. (heap @ [v]) ! (0 + i) = snd (kvs ! i)"
      by (simp add: heap nth_append)
    from dump_zip[OF this] have "dump d (heap @ [v]) = kvs" using d by simp
    then show ?thesis using None nk a h1
      by (simp add: set_if_absent_def update_absent dump_def)
  next
    case (Some b)
    with assms(2) have a: "a = b" and h1: "heap1 = heap" by (auto simp: dict_get_def)
    have 1: "map_of (zip (map fst kvs) [0..<0 + length kvs]) k = Some a" using Some d a by simp
    have 2: "0 + length kvs \<le> length heap" by (simp add: heap)
    from dump_update_present[OF 1 2 agree, of dflt v] map_of_zip_upt_range[OF 1]
    show ?thesis using Some d h1 heap by (simp add: set_if_absent_def)
  qed
  then show "heap1 ! a = (case map_of kvs k of None \<Rightarrow> dflt | Some t \<Rightarrow> t)"
    and "a < length heap1"
    and "dump (set_if_absent d k a) (heap1[a := v]) = AList.update k v kvs" by auto
qed

lemma has_schema_healed: "version_ok l \<Longrightarrow> has_schema (healed h l)"
  by (auto simp: has_schema_def healed_def fill_keys_def version_ok_def split: option.splits)

lemma healed_has_schema: "has_schema l \<Longrightarrow> healed h l = l"
  by (auto simp: has_schema_def healed_def fill_keys_def split: option.splits)

lemma has_schema_version_ok: "has_schema l \<Longrightarrow> version_ok l"
  by (auto simp: has_schema_def version_ok_def split: option.splits)

lemma update_raws_eq:
  "update_raws r rs =
     AList.update (name (filenames0 r))
       ((raw_or_new rs (name (filenames0 r)))\<lparr>r_bads := Some (raw_bads r)\<rparr>) rs"
proof -
  obtain d heap where o: "objects rs = (d, heap)" by (cases "objects rs")
  obtain a heap1 where g: "dict_get d heap (name (filenames0 r)) \<lparr>r_bads = None\<rparr> = (a, heap1)"
    by (cases "dict_get d heap (name (filenames0 r)) \<lparr>r_bads = None\<rparr>")
  note s = store_update[OF o g]
  show ?thesis
    by (simp add: update_raws_def Let_def o g s(1) s(3) raw_or_new_def)
qed

lemma update_epochs_eq:
  "update_epochs ep es =
     (case check_epochs_params ep (epochs_or_new es (name (filename ep))) of
        Inl e \<Rightarrow> Inl e
      | Inr c \<Rightarrow>
          Inr (AList.update (name (filename ep))
                 (c\<lparr>e_bads := Some (bads ep), e_selection := Some (selection ep)\<rparr>) es))"
proof -
  let ?new = "\<lparr>e_params = None, e_bads = None, e_selection = None\<rparr>"
  obtain d heap where o: "objects es = (d, heap)" by (cases "objects es")
  obtain a heap1 where g: "dict_get d heap (name (filename ep)) ?new = (a, heap1)"
    by (cases "dict_get d heap (name (filename ep)) ?new")
  note s = store_update[OF o g]
  show ?thesis
    by (simp add: update_epochs_def Let_def o g s(1) s(2) s(3) epochs_or_new_def
        split: sum.splits)
qed

lemma update_icas_eq:
  "update_icas path ica cs =
     (case check_ica_params ica (ica_or_new cs (name path)) of
        Inl e \<Rightarrow> Inl e
      | Inr c \<Rightarrow> Inr (AList.update (name path) (c\<lparr>i_exclude := Some (exclude ica)\<rparr>) cs))"
proof -
  let ?new = "\<lparr>i_params = None, i_exclude = None\<rparr>"
  obtain d heap where o: "objects cs = (d, heap)" by (cases "objects cs")
  obtain a heap1 where g: "dict_get d heap (name path) ?new = (a, heap1)"
    by (cases "dict_get d heap (name path) ?new")
  note s = store_update[OF o g]
  show ?thesis
    by (simp add: update_icas_def Let_def o g s(1) s(2) s(3) ica_or_new_def
        split: sum.splits)
qed

lemma update_branch_schema:
  "update_branch path i l = Inr l' \<Longrightarrow> has_schema l \<Longrightarrow> has_schema l'"
  by (cases i) (auto simp: update_branch_def has_schema_def split: option.splits sum.splits)

lemma update_log_ok:
  assumes "load_json fs (get_json_fname fs p) = Inr l" and "version_ok l"
  shows "update_log (Some h) p i fs =
     (case update_branch p i (healed h l) of
        Inl e \<Rightarrow> (Inl e, fs(get_json_fname fs p \<mapsto> Json (healed h l)))
      | Inr l' \<Rightarrow> (Inr (), fs(get_json_fname fs p \<mapsto> Json l')))"
proof (cases "update_branch p i (healed h l)")
  case (Inl e)
  then show ?thesis by (simp add: update_log_def read_log_ok[OF assms])
next
  case (Inr l')
  from update_branch_schema[OF Inr has_schema_healed[OF assms(2)]]
  have s: "has_schema l'" .
  show ?thesis
    by (simp add: update_log_def read_log_ok[OF assms] Inr
        save_log_ok[OF has_schema_version_ok[OF s]] healed_has_schema[OF s] json_fname_upd)
qed

lemma set_intersect1d: "set (intersect1d xs ys) = set xs \<inter> set ys"
  by (auto simp: intersect1d_def)

lemma check_events_iff:
  "list_all (\<lambda>x. x \<in> E) (map snd (filter (\<lambda>(x, ev). x \<in> I) rows)) \<longleftrightarrow>
   (\<forall>i<length rows. map fst rows ! i \<in> I \<longrightarrow> map snd rows ! i \<in> E)"
  by (induction rows) (auto simp: less_Suc_eq_0_disj split: prod.splits)

lemma check_epochs_params_stored:
  assumes "e_params t = Some p" and "tmin ep = p_tmin p" and "tmax ep = p_tmax p"
  shows "check_epochs_params ep t =
     (if onsets_agree ep t p then Inr t else Inl (ParameterMismatch Events))"
  using assms
  by (simp add: check_epochs_params_def Let_def check_events_iff set_intersect1d
      selection_def events0_def onsets_agree_def del: set_upt)

lemma filter_upt_Cons:
  "filter (\<lambda>i. (d # ds) ! (i - k) = []) [k..<k + length (d # ds)] =
   (if d = [] then [k] else []) @ filter (\<lambda>i. ds ! (i - Suc k) = []) [Suc k..<Suc k + length ds]"
proof -
  have up: "[k..<k + length (d # ds)] = k # [Suc k..<Suc k + length ds]"
    using upt_conv_Cons[of k "k + Suc (length ds)"] by simp
  have "filter (\<lambda>i. (d # ds) ! (i - k) = []) [Suc k..<Suc k + length ds] =
        filter (\<lambda>i. ds ! (i - Suc k) = []) [Suc k..<Suc k + length ds]"
  proof (rule filter_cong[OF refl])
    fix i assume "i \<in> set [Suc k..<Suc k + length ds]"
    then have "Suc k \<le> i" by auto
    then have "i - k = Suc (i - Suc k)" by simp
    then show "((d # ds) ! (i - k) = []) = (ds ! (i - Suc k) = [])" by simp
  qed
  then show ?thesis unfolding up by (auto simp del: upt_Suc)
qed

lemma drop_idx_loop_eq:
  "drop_idx_loop td (enumerate k dl) (acc, c) =
     (acc @ positions (\<lambda>x. x \<in> set td) c (filter (\<lambda>i. dl ! (i - k) = []) [k..<k + length dl]),
      c + length (filter (\<lambda>i. dl ! (i - k) = []) [k..<k + length dl]))"
proof (induction dl arbitrary: k acc c)
  case Nil
  then show ?case by simp
next
  case (Cons d ds)
  show ?case
    unfolding filter_upt_Cons by (simp add: Cons.IH)
qed

lemma positions_range: "i \<in> set (positions P c xs) \<Longrightarrow> c \<le> i \<and> i < c + length xs"
  by (induction xs arbitrary: c) (fastforce split: if_splits)+

lemma enumerate_fst_ge: "(i, r) \<in> set (enumerate c rows) \<Longrightarrow> c \<le> i"
  by (auto simp: in_set_enumerate_eq)

lemma keep_positions:
  "map snd (filter (\<lambda>(i, row). i \<notin> set (positions P c (map fst rows))) (enumerate c rows)) =
   filter (\<lambda>row. \<not> P (fst row)) rows"
proof (induction rows arbitrary: c)
  case Nil
  then show ?case by simp
next
  case (Cons r rows)
  have notc: "c \<notin> set (positions P (Suc c) (map fst rows))"
    using positions_range[of c P "Suc c" "map fst rows"] by auto
  have A: "filter (\<lambda>(i, row). i \<noteq> c \<and> i \<notin> S) (enumerate (Suc c) rows)
      = filter (\<lambda>(i, row). i \<notin> S) (enumerate (Suc c) rows)" for S
    by (rule filter_cong) (auto dest: enumerate_fst_ge)
  show ?case using notc Cons.IH[of "Suc c"] by (simp add: A)
qed

lemma fold_mark:
  "\<forall>k\<in>set gone. k < length dl \<Longrightarrow>
   fold (\<lambda>k dl. dl[k := v]) gone dl =
   map (\<lambda>i. if i \<in> set gone then v else dl ! i) [0..<length dl]"
proof (induction gone arbitrary: dl)
  case Nil
  then show ?case by (simp add: map_nth)
next
  case (Cons g gone)
  have "fold (\<lambda>k dl. dl[k := v]) gone (dl[g := v]) =
        map (\<lambda>i. if i \<in> set gone then v else dl[g := v] ! i) [0..<length (dl[g := v])]"
    using Cons.prems by (intro Cons.IH) simp
  then show ?case using Cons.prems by (auto simp: nth_list_update)
qed

lemma selection_wf_bound: "selection_wf ep \<Longrightarrow> k \<in> set (selection ep) \<Longrightarrow> k < length (drop_log ep)"
  by (auto simp: selection_wf_def)

lemma drop_positions:
  assumes wf: "selection_wf ep"
  shows "drop (positions P 0 (selection ep)) reason ep =
     Inr (ep\<lparr>kept := filter (\<lambda>row. \<not> P (fst row)) (kept ep),
             drop_log := map (\<lambda>i. if i \<in> set (selection ep) \<and> P i then [reason]
                                   else drop_log ep ! i) [0..<length (drop_log ep)]\<rparr>)"
proof -
  let ?idx = "positions P 0 (selection ep)"
  let ?keep = "filter (\<lambda>row. \<not> P (fst row)) (kept ep)"
  let ?gone = "filter (\<lambda>k. k \<notin> set (map fst ?keep)) (selection ep)"
  have b1: "\<not> list_ex (\<lambda>i. length (kept ep) \<le> i) ?idx"
    using positions_range[of _ P 0 "selection ep"]
    by (fastforce simp: list_ex_iff selection_def)
  have keep: "map snd (filter (\<lambda>(i, row). i \<notin> set ?idx) (enumerate 0 (kept ep))) = ?keep"
    using keep_positions[of P 0 "kept ep"] by (simp add: selection_def)
  have gone: "set ?gone = {k. k \<in> set (selection ep) \<and> P k}"
    by (force simp: selection_def)
  have b3: "\<forall>k\<in>set ?gone. k < length (drop_log ep)"
    using selection_wf_bound[OF wf] by auto
  have b2: "\<not> list_ex (\<lambda>k. length (drop_log ep) \<le> k) ?gone"
    unfolding list_ex_iff using b3 by (meson not_le)
  have fm: "fold (\<lambda>k dl. dl[k := [reason]]) ?gone (drop_log ep) =
      map (\<lambda>i. if i \<in> set (selection ep) \<and> P i then [reason] else drop_log ep ! i)
        [0..<length (drop_log ep)]"
    unfolding fold_mark[OF b3] gone by simp
  show ?thesis
    unfolding drop_def Let_def keep using b1 b2 fm by simp
qed

lemma loop_positions:
  assumes wf: "selection_wf ep"
  shows "fst (drop_idx_loop td (enumerate 0 (drop_log ep)) ([], 0)) =
         positions (\<lambda>x. x \<in> set td) 0 (selection ep)"
  using wf drop_idx_loop_eq[of td 0 "drop_log ep" "[]" 0]
  by (simp add: selection_wf_def)

lemma drop_nothing: "drop [] reason ep = Inr ep"
proof -
  have "map snd (filter (\<lambda>(i, row). True) (enumerate 0 (kept ep))) = kept ep"
    by (simp add: enumerate_eq_zip case_prod_unfold)
  then show ?thesis by (simp add: drop_def Let_def selection_def)
qed

lemma loop_nothing: "fst (drop_idx_loop [] rows (acc, c)) = acc"
  by (induction rows arbitrary: acc c) auto

lemma reject_epochs_eq:
  assumes chk: "check_epochs_params ep (epochs_or_new es (name (filename ep))) = Inr c"
    and wf: "selection_wf ep"
  shows "reject_epochs ep es =
     Inr (case e_selection c of
            None \<Rightarrow> ep\<lparr>bads := mix_bads (case e_bads c of None \<Rightarrow> [] | Some b \<Rightarrow> b) (bads ep)\<rparr>
          | Some sel \<Rightarrow>
              ep\<lparr>bads := mix_bads (case e_bads c of None \<Rightarrow> [] | Some b \<Rightarrow> b) (bads ep),
                 kept := filter (\<lambda>row. fst row \<in> set sel) (kept ep),
                 drop_log := map (\<lambda>i. if i \<in> set (selection ep) \<and> i \<notin> set sel
                                       then [''Inspection''] else drop_log ep ! i)
                               [0..<length (drop_log ep)]\<rparr>)"
proof -
  let ?ep1 = "ep\<lparr>bads := mix_bads (case e_bads c of None \<Rightarrow> [] | Some b \<Rightarrow> b) (bads ep)\<rparr>"
  have wf1: "selection_wf ?ep1" using wf by (simp add: selection_wf_def selection_def)
  have sel1: "selection ?ep1 = selection ep" by (simp add: selection_def)
  show ?thesis
  proof (cases "e_selection c")
    case None
    then show ?thesis
      using chk
      by (simp add: reject_epochs_def Let_def epochs_or_new_def sel1 loop_nothing drop_nothing)
  next
    case (Some sel)
    let ?td = "filter (\<lambda>x. x \<notin> set sel) (selection ep)"
    have k: "filter (\<lambda>row. \<not> fst row \<in> set ?td) (kept ep) =
             filter (\<lambda>row. fst row \<in> set sel) (kept ep)"
      by (rule filter_cong) (auto simp: selection_def)
    have d: "map (\<lambda>i. if i \<in> set (selection ep) \<and> i \<in> set ?td then [''Inspection'']
                      else drop_log ep ! i) [0..<length (drop_log ep)] =
             map (\<lambda>i. if i \<in> set (selection ep) \<and> i \<notin> set sel then [''Inspection'']
                      else drop_log ep ! i) [0..<length (drop_log ep)]"
      by (rule map_cong) auto
    have "drop (positions (\<lambda>x. x \<in> set ?td) 0 (selection ?ep1)) ''Inspection'' ?ep1 =
        Inr (ep\<lparr>bads := mix_bads (case e_bads c of None \<Rightarrow> [] | Some b \<Rightarrow> b) (bads ep),
                kept := filter (\<lambda>row. fst row \<in> set sel) (kept ep),
                drop_log := map (\<lambda>i. if i \<in> set (selection ep) \<and> i \<notin> set sel
                                      then [''Inspection''] else drop_log ep ! i)
                              [0..<length (drop_log ep)]\<rparr>)"
      unfolding drop_positions[OF wf1] using k d
      by (simp add: selection_def)
    then show ?thesis
      using chk Some loop_positions[OF wf1, of ?td]
      by (simp add: reject_epochs_def Let_def epochs_or_new_def sel1)
  qed
qed

lemmas ex_defs = ex_file_def ex_json_def ex_old_log_def ex_old_fs_def

lemmas io_defs =
  get_json_fname_def is_file_def parent_def name_def load_json_def empty_logs_def
  fill_keys_def fill_config_def save_log_def read_log_def Let_def version_ok_def
  healed_def has_schema_def

section \<open>What reading does to the store\<close>

lemma records_healed:
  "raw_record (healed h l) f = raw_record l f"
  "epochs_record (healed h l) f = epochs_record l f"
  "ica_record (healed h l) f = ica_record l f"
  by (auto simp: raw_record_def epochs_record_def ica_record_def healed_def fill_keys_def
      split: option.splits)

lemma load_json_stored:
  assumes "load_json fs q = Inr l"
  shows "stored_raw fs q f = raw_record l f"
    and "stored_epochs fs q f = epochs_record l f"
    and "stored_ica fs q f = ica_record l f"
  using assms
  by (auto simp: load_json_def stored_raw_def stored_epochs_def stored_ica_def empty_logs_def
      raw_record_def epochs_record_def ica_record_def split: option.splits node.splits)

lemma stored_upd_same:
  "stored_raw (fs(q \<mapsto> Json l)) q f = raw_record l f"
  "stored_epochs (fs(q \<mapsto> Json l)) q f = epochs_record l f"
  "stored_ica (fs(q \<mapsto> Json l)) q f = ica_record l f"
  by (simp_all add: stored_raw_def stored_epochs_def stored_ica_def)

lemma stored_upd_other:
  "q' \<noteq> q \<Longrightarrow> stored_raw (fs(q \<mapsto> x)) q' f = stored_raw fs q' f"
  "q' \<noteq> q \<Longrightarrow> stored_epochs (fs(q \<mapsto> x)) q' f = stored_epochs fs q' f"
  "q' \<noteq> q \<Longrightarrow> stored_ica (fs(q \<mapsto> x)) q' f = stored_ica fs q' f"
  by (simp_all add: stored_raw_def stored_epochs_def stored_ica_def)

lemma heal_file_records:
  assumes "load_json fs q = Inr l"
  shows "stored_raw (fs(q \<mapsto> Json (healed h l))) q' f = stored_raw fs q' f"
    and "stored_epochs (fs(q \<mapsto> Json (healed h l))) q' f = stored_epochs fs q' f"
    and "stored_ica (fs(q \<mapsto> Json (healed h l))) q' f = stored_ica fs q' f"
proof -
  note s = load_json_stored[OF assms]
  show "stored_raw (fs(q \<mapsto> Json (healed h l))) q' f = stored_raw fs q' f"
    by (cases "q' = q") (simp_all add: stored_upd_same stored_upd_other records_healed s)
  show "stored_epochs (fs(q \<mapsto> Json (healed h l))) q' f = stored_epochs fs q' f"
    by (cases "q' = q") (simp_all add: stored_upd_same stored_upd_other records_healed s)
  show "stored_ica (fs(q \<mapsto> Json (healed h l))) q' f = stored_ica fs q' f"
    by (cases "q' = q") (simp_all add: stored_upd_same stored_upd_other records_healed s)
qed

lemma heal_file_same:
  "fs q = Some (Json l) \<Longrightarrow> has_schema l \<Longrightarrow> fs(q \<mapsto> Json (healed h l)) = fs"
  by (simp add: healed_has_schema map_upd_triv)

lemma load_json_Json: "fs q = Some (Json l) \<Longrightarrow> load_json fs q = Inr l"
  by (simp add: load_json_def)

lemma read_log_frame:
  assumes "read_log git p fs = (r, fs')"
  shows "q \<noteq> get_json_fname fs p \<Longrightarrow> fs' q = fs q"
    and "stored_raw fs' q f = stored_raw fs q f"
    and "stored_epochs fs' q f = stored_epochs fs q f"
    and "stored_ica fs' q f = stored_ica fs q f"
    and "fs (get_json_fname fs p) = Some (Json l0) \<Longrightarrow> has_schema l0 \<Longrightarrow> fs' = fs"
    and "r = Inr x \<Longrightarrow> fs' (get_json_fname fs p) = Some (Json x) \<and> has_schema x"
proof -
  consider (same) e where "fs' = fs" "r = Inl e"
    | (healed) h l where "load_json fs (get_json_fname fs p) = Inr l" "version_ok l"
        "r = Inr (healed h l)" "fs' = fs(get_json_fname fs p \<mapsto> Json (healed h l))"
    using read_log_cases[OF assms] by blast
  note c = this
  show "q \<noteq> get_json_fname fs p \<Longrightarrow> fs' q = fs q"
    by (cases rule: c) simp_all
  show "stored_raw fs' q f = stored_raw fs q f"
    by (cases rule: c) (simp_all add: heal_file_records)
  show "stored_epochs fs' q f = stored_epochs fs q f"
    by (cases rule: c) (simp_all add: heal_file_records)
  show "stored_ica fs' q f = stored_ica fs q f"
    by (cases rule: c) (simp_all add: heal_file_records)
  show "fs' = fs" if f: "fs (get_json_fname fs p) = Some (Json l0)" and s: "has_schema l0"
  proof (cases rule: c)
    case same
    then show ?thesis by simp
  next
    case (healed h l)
    have "load_json fs (get_json_fname fs p) = Inr l0" using f by (simp add: load_json_def)
    with healed(1) have "l0 = l" by simp
    moreover have "fs(get_json_fname fs p \<mapsto> Json (healed h l0)) = fs"
      using f s by (simp add: healed_has_schema map_upd_triv)
    ultimately show ?thesis using healed(4) by simp
  qed
  show "fs' (get_json_fname fs p) = Some (Json x) \<and> has_schema x" if "r = Inr x"
  proof (cases rule: c)
    case same
    with that show ?thesis by simp
  next
    case (healed h l)
    with that has_schema_healed[OF healed(2), of h] show ?thesis by simp
  qed
qed



lemma is_cleaned_snd:
  "snd (is_cleaned git path kind fs) =
     (if kind \<notin> set [''raws'', ''epochs'', ''icas''] \<or> fs (get_json_fname fs path) = None then fs
      else snd (read_log git (parent path) fs))"
  by (cases "read_log git (parent path) fs")
     (auto simp: is_cleaned_def Let_def split: sum.splits option.splits)

lemma healed_sections:
  "raws (healed h l) = Some (case raws l of None \<Rightarrow> [] | Some r \<Rightarrow> r)"
  "epochs (healed h l) = Some (case epochs l of None \<Rightarrow> [] | Some e \<Rightarrow> e)"
  "icas (healed h l) = Some (case icas l of None \<Rightarrow> [] | Some c \<Rightarrow> c)"
  by (simp_all add: healed_def fill_keys_def)

lemma read_log_no_version:
  assumes "fs (get_json_fname fs path) = Some (Json l)" and "\<not> version_ok l"
  shows "read_log (Some h) path fs = (Inl KeyError, fs)"
  using assms by (simp add: read_log_def load_json_def Let_def fill_config_fails)

lemma save_log_no_version:
  "\<not> version_ok m \<Longrightarrow> save_log (Some h) path m fs = (Inl KeyError, fs)"
  by (simp add: save_log_def Let_def fill_config_fails)

lemma healed_fields:
  assumes "version_ok l"
  shows "has_schema (healed h l)"
    and "extra (healed h l) = extra l"
    and "raws (healed h l) = Some (case raws l of None \<Rightarrow> [] | Some r \<Rightarrow> r)"
    and "epochs (healed h l) = Some (case epochs l of None \<Rightarrow> [] | Some e \<Rightarrow> e)"
    and "icas (healed h l) = Some (case icas l of None \<Rightarrow> [] | Some c \<Rightarrow> c)"
    and "config (healed h l) =
           Some (case config l of None \<Rightarrow> [(''version'', h)] | Some c \<Rightarrow> c)"
  using assms by (simp_all add: has_schema_healed) (simp_all add: healed_def fill_keys_def)

lemma version_ok_empty: "version_ok empty_logs"
  by (simp add: version_ok_def empty_logs_def)

lemma ex_json_fname:
  "get_json_fname ex_old_fs ex_file = ex_json"
  "get_json_fname [ex_file \<mapsto> Data] ex_file = ex_json"
  "get_json_fname ex_noversion_fs ex_file = ex_json"
  by (simp_all add: ex_defs ex_noversion_fs_def get_json_fname_def is_file_def parent_def)

lemma ex_healed:
  "healed ''v1'' ex_old_log = ex_healed_log"
  "healed ''v1'' empty_logs = ex_new_log"
  by (simp_all add: healed_def fill_keys_def ex_old_log_def ex_healed_log_def ex_new_log_def
      empty_logs_def)

lemma ex_version_ok: "version_ok ex_old_log" "\<not> version_ok ex_noversion_log"
  by (simp_all add: version_ok_def ex_old_log_def ex_noversion_log_def)

lemma kind_keys_healed:
  assumes "kind \<in> set [''raws'', ''epochs'', ''icas'']"
  shows "\<exists>ks. kind_keys kind (healed h l) = Some ks"
  by (simp add: kind_keys_def healed_sections)

lemma is_cleaned_ok:
  assumes "kind \<in> set [''raws'', ''epochs'', ''icas'']"
    and "fs (get_json_fname fs path) \<noteq> None"
    and "fs (get_json_fname fs (parent path)) = Some (Json l)" and "version_ok l"
    and "kind_keys kind (healed h l) = Some ks"
  shows "is_cleaned (Some h) path kind fs =
     (Inr (name path \<in> set ks), fs(get_json_fname fs (parent path) \<mapsto> Json (healed h l)))"
proof -
  have lj: "load_json fs (get_json_fname fs (parent path)) = Inr l"
    using assms(3) by (simp add: load_json_def)
  show ?thesis
    using assms(1,2,5) by (auto simp: is_cleaned_def Let_def read_log_ok[OF lj assms(4)])
qed

lemma healed_differs:
  assumes "version_ok l" and "\<not> has_schema l"
  shows "healed h l \<noteq> l"
  using has_schema_healed[OF assms(1), of h] assms(2) by auto




text \<open>
  Claim C4 says that \<open>is_cleaned\<close> never mutates an existing log. It does, through
  \<open>read_log\<close>: a log written without the \<^verbatim>\<open>epochs\<close> and \<^verbatim>\<open>icas\<close> keys has them after the
  call.
\<close>

theorem is_cleaned_rewrites_log_counterexample:
  "ex_old_fs ex_json = Some (Json ex_old_log) \<and>
   snd (is_cleaned (Some ''v1'') ex_file ''raws'' ex_old_fs) ex_json =
     Some (Json (ex_old_log\<lparr>epochs := Some [], icas := Some []\<rparr>)) \<and>
   snd (is_cleaned (Some ''v1'') ex_file ''raws'' ex_old_fs) ex_json \<noteq> ex_old_fs ex_json"
  by (simp add: ex_defs io_defs is_cleaned_def kind_keys_def)

text \<open>
  Claim C4 as amended. For each of the three kinds: when the log that \<open>path\<close> resolves
  to does not exist, \<open>is_cleaned\<close> returns \<open>False\<close> and changes nothing (no file is
  created). Otherwise it reads through \<open>read_log\<close> on the parent of \<open>path\<close>, and when
  that log can be read it returns whether the name of \<open>path\<close> is a key of the mapping
  of that kind and writes the log back with the missing keys filled in: a log that
  lacked a key is different after the call, a log that already has the four keys and
  a version stays identical. In every case no stored record of any file name changes
  and no file other than that log is touched. For a path that is a file in a
  directory, the log read is the log tested.
\<close>

theorem is_cleaned_storage_effect:
  assumes "kind \<in> set [''raws'', ''epochs'', ''icas'']"
  shows
  "(fs (get_json_fname fs path) = None \<longrightarrow> is_cleaned git path kind fs = (Inr False, fs)) \<and>
   (\<forall>q. q \<noteq> get_json_fname fs (parent path) \<longrightarrow> snd (is_cleaned git path kind fs) q = fs q) \<and>
   (\<forall>q f. stored_raw (snd (is_cleaned git path kind fs)) q f = stored_raw fs q f \<and>
          stored_epochs (snd (is_cleaned git path kind fs)) q f = stored_epochs fs q f \<and>
          stored_ica (snd (is_cleaned git path kind fs)) q f = stored_ica fs q f) \<and>
   (\<forall>l. fs (get_json_fname fs (parent path)) = Some (Json l) \<and> has_schema l \<longrightarrow>
        snd (is_cleaned git path kind fs) = fs) \<and>
   (is_file fs path \<and> \<not> is_file fs (parent path) \<longrightarrow>
        get_json_fname fs (parent path) = get_json_fname fs path) \<and>
   (\<forall>l. fs (get_json_fname fs path) \<noteq> None \<and>
        fs (get_json_fname fs (parent path)) = Some (Json l) \<and> version_ok l \<longrightarrow>
        (\<exists>ks. kind_keys kind (healed h l) = Some ks \<and>
              is_cleaned (Some h) path kind fs =
                (Inr (name path \<in> set ks),
                 fs(get_json_fname fs (parent path) \<mapsto> Json (healed h l)))) \<and>
        (\<not> has_schema l \<longrightarrow>
           snd (is_cleaned (Some h) path kind fs) (get_json_fname fs (parent path)) \<noteq>
           fs (get_json_fname fs (parent path)))) \<and>
   (\<forall>l. version_ok l \<longrightarrow>
        has_schema (healed h l) \<and>
        extra (healed h l) = extra l \<and>
        raws (healed h l) = Some (case raws l of None \<Rightarrow> [] | Some r \<Rightarrow> r) \<and>
        epochs (healed h l) = Some (case epochs l of None \<Rightarrow> [] | Some e \<Rightarrow> e) \<and>
        icas (healed h l) = Some (case icas l of None \<Rightarrow> [] | Some c \<Rightarrow> c) \<and>
        config (healed h l) =
          Some (case config l of None \<Rightarrow> [(''version'', h)] | Some c \<Rightarrow> c))"
proof -
  obtain r fs' where rl: "read_log git (parent path) fs = (r, fs')"
    by (cases "read_log git (parent path) fs")
  note fr = read_log_frame[OF rl]
  have 1: "fs (get_json_fname fs path) = None \<longrightarrow> is_cleaned git path kind fs = (Inr False, fs)"
    using assms by (simp add: is_cleaned_def Let_def)
  have 2: "\<forall>q. q \<noteq> get_json_fname fs (parent path) \<longrightarrow>
             snd (is_cleaned git path kind fs) q = fs q"
    using fr(1) by (simp add: is_cleaned_snd rl)
  have 3: "\<forall>q f. stored_raw (snd (is_cleaned git path kind fs)) q f = stored_raw fs q f \<and>
          stored_epochs (snd (is_cleaned git path kind fs)) q f = stored_epochs fs q f \<and>
          stored_ica (snd (is_cleaned git path kind fs)) q f = stored_ica fs q f"
    using fr(2,3,4) by (simp add: is_cleaned_snd rl)
  have 4: "\<forall>l. fs (get_json_fname fs (parent path)) = Some (Json l) \<and> has_schema l \<longrightarrow>
        snd (is_cleaned git path kind fs) = fs"
    using fr(5) by (auto simp: is_cleaned_snd rl)
  have 5: "is_file fs path \<and> \<not> is_file fs (parent path) \<longrightarrow>
        get_json_fname fs (parent path) = get_json_fname fs path"
    by (simp add: get_json_fname_def)
  have 6: "\<forall>l. fs (get_json_fname fs path) \<noteq> None \<and>
        fs (get_json_fname fs (parent path)) = Some (Json l) \<and> version_ok l \<longrightarrow>
        (\<exists>ks. kind_keys kind (healed h l) = Some ks \<and>
              is_cleaned (Some h) path kind fs =
                (Inr (name path \<in> set ks),
                 fs(get_json_fname fs (parent path) \<mapsto> Json (healed h l)))) \<and>
        (\<not> has_schema l \<longrightarrow>
           snd (is_cleaned (Some h) path kind fs) (get_json_fname fs (parent path)) \<noteq>
           fs (get_json_fname fs (parent path)))"
  proof (intro allI impI, elim conjE)
    fix l
    assume a: "fs (get_json_fname fs path) \<noteq> None"
      "fs (get_json_fname fs (parent path)) = Some (Json l)" "version_ok l"
    from kind_keys_healed[OF assms, of h l] obtain ks
      where ks: "kind_keys kind (healed h l) = Some ks" ..
    note ok = is_cleaned_ok[OF assms a ks]
    have "\<not> has_schema l \<longrightarrow>
           snd (is_cleaned (Some h) path kind fs) (get_json_fname fs (parent path)) \<noteq>
           fs (get_json_fname fs (parent path))"
      using healed_differs[OF a(3), of h] by (simp add: ok a(2))
    with ks ok show "(\<exists>ks. kind_keys kind (healed h l) = Some ks \<and>
              is_cleaned (Some h) path kind fs =
                (Inr (name path \<in> set ks),
                 fs(get_json_fname fs (parent path) \<mapsto> Json (healed h l)))) \<and>
        (\<not> has_schema l \<longrightarrow>
           snd (is_cleaned (Some h) path kind fs) (get_json_fname fs (parent path)) \<noteq>
           fs (get_json_fname fs (parent path)))" by blast
  qed
  have 7: "\<forall>l. version_ok l \<longrightarrow>
        has_schema (healed h l) \<and>
        extra (healed h l) = extra l \<and>
        raws (healed h l) = Some (case raws l of None \<Rightarrow> [] | Some r \<Rightarrow> r) \<and>
        epochs (healed h l) = Some (case epochs l of None \<Rightarrow> [] | Some e \<Rightarrow> e) \<and>
        icas (healed h l) = Some (case icas l of None \<Rightarrow> [] | Some c \<Rightarrow> c) \<and>
        config (healed h l) =
          Some (case config l of None \<Rightarrow> [(''version'', h)] | Some c \<Rightarrow> c)"
    using healed_fields by blast
  from 1 2 3 4 5 6 7 show ?thesis by (intro conjI)
qed

theorem is_cleaned_storage_effect_witness:
  "''raws'' \<in> set [''raws'', ''epochs'', ''icas''] \<and>
   [ex_file \<mapsto> Data] (get_json_fname [ex_file \<mapsto> Data] ex_file) = None \<and>
   is_cleaned (Some ''v1'') ex_file ''raws'' [ex_file \<mapsto> Data] = (Inr False, [ex_file \<mapsto> Data]) \<and>
   ex_old_fs (get_json_fname ex_old_fs ex_file) \<noteq> None \<and>
   ex_old_fs (get_json_fname ex_old_fs (parent ex_file)) = Some (Json ex_old_log) \<and>
   version_ok ex_old_log \<and> \<not> has_schema ex_old_log \<and>
   is_cleaned (Some ''v1'') ex_file ''raws'' ex_old_fs =
     (Inr True, ex_old_fs(ex_json \<mapsto> Json ex_healed_log)) \<and>
   snd (is_cleaned (Some ''v1'') ex_file ''raws'' ex_old_fs) ex_json \<noteq> ex_old_fs ex_json \<and>
   stored_raw (snd (is_cleaned (Some ''v1'') ex_file ''raws'' ex_old_fs)) ex_json ''a_raw.fif'' =
     Some \<lparr>r_bads = Some [''Cz'']\<rparr>"
proof -
  have k: "''raws'' \<in> set [''raws'', ''epochs'', ''icas'']" by simp
  have jp: "get_json_fname ex_old_fs (parent ex_file) = ex_json"
    by (simp add: ex_defs get_json_fname_def is_file_def parent_def)
  have f1: "ex_old_fs ex_json = Some (Json ex_old_log)" by (simp add: ex_old_fs_def)
  have f1': "ex_old_fs ex_json \<noteq> None" by (simp add: f1)
  have f2: "[ex_file \<mapsto> Data] ex_json = None" by (simp add: ex_file_def ex_json_def)
  have f3: "stored_raw ex_old_fs ex_json ''a_raw.fif'' = Some \<lparr>r_bads = Some [''Cz'']\<rparr>"
    by (simp add: stored_raw_def f1 raw_record_def ex_old_log_def)
  have ns: "\<not> has_schema ex_old_log" by (simp add: has_schema_def ex_old_log_def)
  have kk: "kind_keys ''raws'' ex_healed_log = Some [''a_raw.fif'']"
    by (simp add: kind_keys_def ex_healed_log_def)
  have nm: "name ex_file = ''a_raw.fif''" by (simp add: name_def ex_file_def)
  note A = is_cleaned_storage_effect [OF k, of ex_old_fs ex_file "Some ''v1''" "''v1''", unfolded ex_json_fname jp]
  note B = is_cleaned_storage_effect [OF k, of "[ex_file \<mapsto> Data]" ex_file "Some ''v1''" "''v1''",
      unfolded ex_json_fname]
  have b1: "is_cleaned (Some ''v1'') ex_file ''raws'' [ex_file \<mapsto> Data] =
      (Inr False, [ex_file \<mapsto> Data])"
    using B[THEN conjunct1] f2 by simp
  note A6 = A[THEN conjunct2, THEN conjunct2, THEN conjunct2, THEN conjunct2, THEN conjunct2,
      THEN conjunct1, rule_format, of ex_old_log]
  have a1: "is_cleaned (Some ''v1'') ex_file ''raws'' ex_old_fs =
     (Inr True, ex_old_fs(ex_json \<mapsto> Json ex_healed_log))"
    using A6 f1 f1' ex_version_ok(1) by (auto simp: ex_healed kk nm)
  have a2: "snd (is_cleaned (Some ''v1'') ex_file ''raws'' ex_old_fs) ex_json \<noteq> ex_old_fs ex_json"
    using A6 f1 f1' ex_version_ok(1) ns by blast
  have a3: "stored_raw (snd (is_cleaned (Some ''v1'') ex_file ''raws'' ex_old_fs)) ex_json
      ''a_raw.fif'' = Some \<lparr>r_bads = Some [''Cz'']\<rparr>"
    using A[THEN conjunct2, THEN conjunct2, THEN conjunct1, rule_format,
        of ex_json "''a_raw.fif''"] f3 by simp
  show ?thesis
    unfolding ex_json_fname jp using k f2 b1 f1' f1 ex_version_ok(1) ns a1 a2 a3
    by (intro conjI)
qed

section \<open>Reapplying and recording decisions\<close>

lemmas ex_epochs_defs = ex_epochs_def ex_epochs_log_def ex_epochs_logs_def ex_epochs_fs_def

lemmas ex_ica_defs = ex_ica_file_def ex_ica_def ex_ica_log_def ex_ica_logs_def ex_ica_fs_def
  params_of_ica_def

lemma reject_ok:
  assumes "load_json fs (get_json_fname fs path) = Inr l" and "version_ok l"
    and "\<not> (fs (get_json_fname fs path) = None \<and> required)"
  shows "reject (Some h) path i required fs =
     (reject_branch path i (healed h l), fs(get_json_fname fs path \<mapsto> Json (healed h l)))"
  using assms(3) by (auto simp: reject_def read_log_ok[OF assms(1,2)])

lemma set_mix_bads: "set (mix_bads a b) = set a \<union> set b"
  by (simp add: mix_bads_def)

lemma reject_branch_raw:
  "reject_branch path (Raw r) (healed h l) =
     Inr (Raw (r\<lparr>raw_bads := mix_bads (stored_bads l (name (filenames0 r))) (raw_bads r)\<rparr>))"
  by (auto simp: reject_branch_def healed_sections reject_raw_def Let_def stored_bads_def
      raw_record_def split: option.splits)

lemma stored_bads_healed: "stored_bads (healed h l) f = stored_bads l f"
  by (simp add: stored_bads_def records_healed)

lemma check_epochs_params_keeps:
  assumes "check_epochs_params ep t = Inr c"
  shows "e_bads c = e_bads t" and "e_selection c = e_selection t"
    and "e_params t = Some p \<Longrightarrow> c = t"
  using assms
  by (auto simp: check_epochs_params_def Let_def split: option.splits if_splits)

lemma check_ica_params_keeps:
  assumes "check_ica_params ica t = Inr c"
  shows "i_exclude c = i_exclude t" and "i_params t = Some p \<Longrightarrow> c = t"
  using assms
  by (auto simp: check_ica_params_def split: option.splits if_splits)

lemma check_ica_params_agree:
  assumes "i_params t = None \<or> i_params t = Some (params_of_ica ica)"
  shows "\<exists>c. check_ica_params ica t = Inr c"
  using assms
proof
  assume "i_params t = None"
  then show ?thesis by (simp add: check_ica_params_def)
next
  assume "i_params t = Some (params_of_ica ica)"
  then show ?thesis by (simp add: check_ica_params_def params_of_ica_def)
qed


lemma epochs_or_new_healed:
  "epochs_or_new (case epochs l of None \<Rightarrow> [] | Some e \<Rightarrow> e) f = epochs_or_empty l f"
  by (simp add: epochs_or_new_def epochs_or_empty_def epochs_record_def split: option.splits)

lemma ica_or_new_healed:
  "ica_or_new (case icas l of None \<Rightarrow> [] | Some e \<Rightarrow> e) f = ica_or_empty l f"
  by (simp add: ica_or_new_def ica_or_empty_def ica_record_def split: option.splits)

lemma update_branch_raw:
  "update_branch path (Raw r) (healed h l) =
     Inr ((healed h l)\<lparr>raws := Some (AList.update (name (filenames0 r))
        ((raw_or_new (case raws l of None \<Rightarrow> [] | Some x \<Rightarrow> x) (name (filenames0 r)))
           \<lparr>r_bads := Some (raw_bads r)\<rparr>)
        (case raws l of None \<Rightarrow> [] | Some x \<Rightarrow> x))\<rparr>)"
  by (simp add: update_branch_def healed_sections update_raws_eq)

lemma update_branch_epochs:
  "update_branch path (Epochs ep) (healed h l) =
     (case check_epochs_params ep (epochs_or_empty l (name (filename ep))) of
        Inl e \<Rightarrow> Inl e
      | Inr c \<Rightarrow>
          Inr ((healed h l)\<lparr>epochs := Some (AList.update (name (filename ep))
                 (c\<lparr>e_bads := Some (bads ep), e_selection := Some (selection ep)\<rparr>)
                 (case epochs l of None \<Rightarrow> [] | Some x \<Rightarrow> x))\<rparr>))"
  by (simp add: update_branch_def healed_sections update_epochs_eq epochs_or_new_healed
      split: sum.splits)

lemma update_branch_ica:
  "update_branch path (Ica ica) (healed h l) =
     (case check_ica_params ica (ica_or_empty l (name path)) of
        Inl e \<Rightarrow> Inl e
      | Inr c \<Rightarrow>
          Inr ((healed h l)\<lparr>icas := Some (AList.update (name path)
                 (c\<lparr>i_exclude := Some (exclude ica)\<rparr>)
                 (case icas l of None \<Rightarrow> [] | Some x \<Rightarrow> x))\<rparr>))"
  by (simp add: update_branch_def healed_sections update_icas_eq ica_or_new_healed
      split: sum.splits)

lemma record_after_update:
  "raw_record (l\<lparr>raws := Some (AList.update k v rs)\<rparr>) f = (if f = k then Some v else map_of rs f)"
  "epochs_record (l\<lparr>epochs := Some (AList.update k v' es)\<rparr>) f = (if f = k then Some v' else map_of es f)"
  "ica_record (l\<lparr>icas := Some (AList.update k v'' cs)\<rparr>) f = (if f = k then Some v'' else map_of cs f)"
  by (simp_all add: raw_record_def epochs_record_def ica_record_def update_conv')

text \<open>
  The event check as the code performs it. When the stored record has a parameter
  snapshot and \<^verbatim>\<open>tmin\<close>, \<^verbatim>\<open>tmax\<close> agree with it, the check passes exactly when every
  current segment whose original index lies in the intersection of the current
  selection with the previous selection has its onset sample in the stored events
  list; otherwise it fails with the events mismatch. When no selection is stored the
  previous selection is \<^verbatim>\<open>np.arange(len(epochs))\<close>: the positions \<open>0 .. n - 1\<close> of the \<open>n\<close>
  current segments, not their original indices.
\<close>

theorem check_epochs_params_events:
  assumes "e_params t = Some p" and "tmin ep = p_tmin p" and "tmax ep = p_tmax p"
  shows "check_epochs_params ep t =
     (if \<forall>i<length (kept ep).
           selection ep ! i \<in>
             set (selection ep) \<inter>
             set (case e_selection t of None \<Rightarrow> [0..<length (kept ep)] | Some s \<Rightarrow> s) \<longrightarrow>
           events0 ep ! i \<in> set (p_events p)
      then Inr t else Inl (ParameterMismatch Events))"
  using check_epochs_params_stored[OF assms] by (simp add: onsets_agree_def del: set_upt)

theorem check_epochs_params_events_witness:
  "e_params ex_epochs_log = Some \<lparr>p_tmin = - 1, p_tmax = 2, p_events = [100, 300, 500]\<rparr> \<and>
   tmin ex_epochs = - 1 \<and> tmax ex_epochs = 2 \<and>
   check_epochs_params ex_epochs ex_epochs_log = Inr ex_epochs_log \<and>
   check_epochs_params (ex_epochs\<lparr>kept := [(0, 100), (2, 301)]\<rparr>) ex_epochs_log =
     Inl (ParameterMismatch Events)"
  using check_epochs_params_events [of ex_epochs_log "\<lparr>p_tmin = - 1, p_tmax = 2, p_events = [100, 300, 500]\<rparr>" ex_epochs]
    check_epochs_params_events [of ex_epochs_log "\<lparr>p_tmin = - 1, p_tmax = 2, p_events = [100, 300, 500]\<rparr>"
          "ex_epochs\<lparr>kept := [(0, 100), (2, 301)]\<rparr>"]
  by (simp add: ex_epochs_defs check_epochs_params_def selection_def events0_def intersect1d_def
      Let_def)

text \<open>
  Claim C5 (events of an epochs file) has the check fall back to all current indices
  when no selection is stored, as \<open>reject\<close> does with \<^verbatim>\<open>inst.selection\<close>; every current
  segment would then have to have its onset in the stored list. The code falls back
  to positions instead. On the object with selection \<open>[1, 3]\<close> and onsets
  \<open>[200, 400]\<close>, against a snapshot with events \<open>[200]\<close> and no stored selection, the
  intersection with the positions \<open>[0, 1]\<close> is \<open>[1]\<close>: the segment with original
  index 3 is not checked, its onset 400 is not in the stored list, and the check
  passes.
\<close>

theorem check_epochs_params_fallback_misses_segment:
  "selection_wf ex_gap_epochs \<and>
   selection ex_gap_epochs = [1, 3] \<and>
   events0 ex_gap_epochs = [200, 400] \<and>
   e_selection ex_gap_log = None \<and>
   e_params ex_gap_log = Some \<lparr>p_tmin = - 1, p_tmax = 2, p_events = [200]\<rparr> \<and>
   tmin ex_gap_epochs = - 1 \<and> tmax ex_gap_epochs = 2 \<and>
   400 \<notin> set [200 :: int] \<and>
   intersect1d (selection ex_gap_epochs) [0..<length (kept ex_gap_epochs)] = [1] \<and>
   check_epochs_params ex_gap_epochs ex_gap_log = Inr ex_gap_log"
  by (simp add: ex_gap_epochs_def ex_gap_log_def selection_wf_def selection_def events0_def
      check_epochs_params_def intersect1d_def Let_def)

text \<open>
  Claim C6 (selection subset policy). For an epochs object that satisfies the MNE
  invariant and passes the parameter check, \<open>reject\<close> returns the object with the
  bad channels merged and, when a selection is stored, with exactly the segments whose
  original index is in the stored selection still present; the drop-log entry of every
  currently selected index that is not in the stored selection becomes
  \<^verbatim>\<open>Inspection\<close>, the other entries are unchanged. When no selection is stored nothing
  is dropped. The witness is the example of the specification: stored \<open>[0, 2, 4]\<close>,
  current \<open>[0 .. 5]\<close>.
\<close>

theorem reject_selection_subset:
  assumes "load_json fs (get_json_fname fs path) = Inr l" and "version_ok l"
    and "\<not> (fs (get_json_fname fs path) = None \<and> required)"
    and "selection_wf ep"
    and "check_epochs_params ep (epochs_or_empty l (name (filename ep))) = Inr c"
  shows "fst (reject (Some h) path (Epochs ep) required fs) =
     Inr (Epochs
       (case e_selection (epochs_or_empty l (name (filename ep))) of
          None \<Rightarrow>
            ep\<lparr>bads := mix_bads (case e_bads (epochs_or_empty l (name (filename ep))) of
                                   None \<Rightarrow> [] | Some b \<Rightarrow> b) (bads ep)\<rparr>
        | Some sel \<Rightarrow>
            ep\<lparr>bads := mix_bads (case e_bads (epochs_or_empty l (name (filename ep))) of
                                   None \<Rightarrow> [] | Some b \<Rightarrow> b) (bads ep),
               kept := filter (\<lambda>row. fst row \<in> set sel) (kept ep),
               drop_log := map (\<lambda>i. if i \<in> set (selection ep) \<and> i \<notin> set sel
                                     then [''Inspection''] else drop_log ep ! i)
                             [0..<length (drop_log ep)]\<rparr>))"
proof -
  let ?es = "case epochs l of None \<Rightarrow> [] | Some e \<Rightarrow> e"
  have chk: "check_epochs_params ep (epochs_or_new ?es (name (filename ep))) = Inr c"
    using assms(5) by (simp add: epochs_or_new_healed)
  note k = check_epochs_params_keeps(1,2)[OF assms(5)]
  have "reject_branch path (Epochs ep) (healed h l) =
      (case reject_epochs ep ?es of Inl e \<Rightarrow> Inl e | Inr ep' \<Rightarrow> Inr (Epochs ep'))"
    by (simp add: reject_branch_def healed_sections)
  then show ?thesis
    unfolding reject_ok[OF assms(1,2,3)] reject_epochs_eq[OF chk assms(4)] k by simp
qed

theorem reject_selection_subset_witness:
  "load_json ex_epochs_fs (get_json_fname ex_epochs_fs [''subj'', ''a_epo.fif'']) =
     Inr ex_epochs_logs \<and>
   selection_wf ex_epochs \<and>
   check_epochs_params ex_epochs ex_epochs_log = Inr ex_epochs_log \<and>
   fst (reject (Some ''v1'') [''subj'', ''a_epo.fif''] (Epochs ex_epochs) False ex_epochs_fs) =
     Inr (Epochs (ex_epochs\<lparr>bads := [''Cz'', ''Fz''],
                    kept := [(0, 100), (2, 300), (4, 500)],
                    drop_log := [[], [''Inspection''], [], [''Inspection''], [],
                                 [''Inspection'']]\<rparr>))"
  using reject_selection_subset [of ex_epochs_fs "[''subj'', ''a_epo.fif'']"
      ex_epochs_logs
      False ex_epochs ex_epochs_log "''v1''"]
  by (simp add: ex_epochs_defs ex_defs io_defs selection_wf_def selection_def events0_def
      check_epochs_params_def intersect1d_def epochs_or_empty_def epochs_record_def
      mix_bads_def)

text \<open>
  Claim C7 (ICA exclude is replaced). With a stored record that has an exclude list,
  \<open>reject\<close> either fails in the parameter check or returns the ICA with its exclude
  list set to the stored one, whatever it was before; it returns it whenever the
  stored snapshot is absent or equal to the parameters of the ICA.
\<close>

theorem reject_ica_exclude_replaced:
  assumes "fs (get_json_fname fs path) = Some (Json l)" and "version_ok l"
    and "ica_record l (name path) = Some t" and "i_exclude t = Some ex"
  shows "fst (reject (Some h) path (Ica ica) required fs) =
           (case check_ica_params ica t of
              Inl e \<Rightarrow> Inl e
            | Inr c \<Rightarrow> Inr (Ica (ica\<lparr>exclude := ex\<rparr>))) \<and>
         (i_params t = None \<or> i_params t = Some (params_of_ica ica) \<longrightarrow>
            fst (reject (Some h) path (Ica ica) required fs) = Inr (Ica (ica\<lparr>exclude := ex\<rparr>)))"
proof -
  have lj: "load_json fs (get_json_fname fs path) = Inr l"
    using assms(1) by (simp add: load_json_def)
  have nm: "\<not> (fs (get_json_fname fs path) = None \<and> required)" using assms(1) by simp
  obtain cs where cs: "icas l = Some cs" "map_of cs (name path) = Some t"
    using assms(3) by (auto simp: ica_record_def split: option.splits)
  have rb: "reject_branch path (Ica ica) (healed h l) =
      (case check_ica_params ica t of
         Inl e \<Rightarrow> Inl e
       | Inr c \<Rightarrow> Inr (Ica (ica\<lparr>exclude := ex\<rparr>)))"
    using cs assms(4)
    by (auto simp: reject_branch_def healed_sections reject_ica_def Let_def
        dest: check_ica_params_keeps(1) split: sum.splits)
  have 1: "fst (reject (Some h) path (Ica ica) required fs) =
           (case check_ica_params ica t of
              Inl e \<Rightarrow> Inl e
            | Inr c \<Rightarrow> Inr (Ica (ica\<lparr>exclude := ex\<rparr>)))"
    by (simp add: reject_ok[OF lj assms(2) nm] rb)
  have 2: "i_params t = None \<or> i_params t = Some (params_of_ica ica) \<longrightarrow>
            fst (reject (Some h) path (Ica ica) required fs) = Inr (Ica (ica\<lparr>exclude := ex\<rparr>))"
  proof
    assume "i_params t = None \<or> i_params t = Some (params_of_ica ica)"
    from check_ica_params_agree[OF this] obtain c where "check_ica_params ica t = Inr c" ..
    with 1 show "fst (reject (Some h) path (Ica ica) required fs) = Inr (Ica (ica\<lparr>exclude := ex\<rparr>))"
      by simp
  qed
  from 1 2 show ?thesis by (intro conjI)
qed

theorem reject_ica_exclude_replaced_witness:
  "ex_ica_fs (get_json_fname ex_ica_fs ex_ica_file) = Some (Json ex_ica_logs) \<and>
   version_ok ex_ica_logs \<and>
   ica_record ex_ica_logs (name ex_ica_file) = Some ex_ica_log \<and>
   i_exclude ex_ica_log = Some [1, 3] \<and>
   exclude ex_ica = [2] \<and>
   fst (reject (Some ''v1'') ex_ica_file (Ica ex_ica) False ex_ica_fs) =
     Inr (Ica (ex_ica\<lparr>exclude := [1, 3]\<rparr>))"
  using reject_ica_exclude_replaced [of ex_ica_fs ex_ica_file ex_ica_logs ex_ica_log "[1, 3]" "''v1''" ex_ica False]
  by (simp add: ex_ica_defs ex_defs io_defs ica_record_def check_ica_params_def)

text \<open>
  Claim C8 (raw bads, idempotent). For a raw recording \<open>reject\<close> succeeds and returns
  the recording whose bad channels are, as a set, the stored ones together with those
  it had; the stored record is unchanged by the call, and a second \<open>reject\<close> on the
  result returns the same set of bad channels.
\<close>

theorem reject_raw_bads_union:
  assumes "load_json fs (get_json_fname fs path) = Inr l" and "version_ok l"
    and "\<not> (fs (get_json_fname fs path) = None \<and> required)"
  shows "\<exists>r1 fs1 r2 fs2.
     reject (Some h) path (Raw r) required fs = (Inr (Raw r1), fs1) \<and>
     set (raw_bads r1) = set (stored_bads l (name (filenames0 r))) \<union> set (raw_bads r) \<and>
     filenames0 r1 = filenames0 r \<and>
     stored_raw fs1 (get_json_fname fs path) (name (filenames0 r)) =
       raw_record l (name (filenames0 r)) \<and>
     reject (Some h) path (Raw r1) required fs1 = (Inr (Raw r2), fs2) \<and>
     set (raw_bads r2) = set (raw_bads r1)"
proof -
  let ?jf = "get_json_fname fs path"
  let ?f = "name (filenames0 r)"
  let ?r1 = "r\<lparr>raw_bads := mix_bads (stored_bads l ?f) (raw_bads r)\<rparr>"
  let ?fs1 = "fs(?jf \<mapsto> Json (healed h l))"
  let ?r2 = "?r1\<lparr>raw_bads := mix_bads (stored_bads l ?f) (raw_bads ?r1)\<rparr>"
  have 1: "reject (Some h) path (Raw r) required fs = (Inr (Raw ?r1), ?fs1)"
    by (simp add: reject_ok[OF assms] reject_branch_raw)
  have jf: "get_json_fname ?fs1 path = ?jf" by (rule json_fname_upd)
  have l1: "load_json ?fs1 (get_json_fname ?fs1 path) = Inr (healed h l)"
    by (simp add: jf load_json_def)
  have n1: "\<not> (?fs1 (get_json_fname ?fs1 path) = None \<and> required)" by (simp add: jf)
  have 2: "reject (Some h) path (Raw ?r1) required ?fs1 =
      (Inr (Raw ?r2), ?fs1(?jf \<mapsto> Json (healed h (healed h l))))"
    unfolding reject_ok[OF l1 version_ok_healed[OF assms(2)] n1, of h "Raw ?r1"] jf
      reject_branch_raw stored_bads_healed by simp
  have 3: "set (raw_bads ?r2) = set (raw_bads ?r1)" by (auto simp: set_mix_bads)
  have 4: "stored_raw ?fs1 ?jf ?f = raw_record l ?f"
    by (simp add: stored_upd_same records_healed)
  show ?thesis
    using 1 2 3 4 by (intro exI[of _ ?r1] exI[of _ ?fs1] exI[of _ ?r2] exI conjI)
      (simp_all add: set_mix_bads)
qed

theorem reject_raw_bads_union_witness:
  "load_json ex_old_fs (get_json_fname ex_old_fs ex_file) = Inr ex_old_log \<and>
   version_ok ex_old_log \<and>
   stored_bads ex_old_log (name ex_file) = [''Cz''] \<and>
   fst (reject (Some ''v1'') ex_file (Raw \<lparr>filenames0 = ex_file, raw_bads = [''Fz'']\<rparr>) False
          ex_old_fs) =
     Inr (Raw \<lparr>filenames0 = ex_file, raw_bads = [''Cz'', ''Fz'']\<rparr>) \<and>
   fst (reject (Some ''v1'') ex_file (Raw \<lparr>filenames0 = ex_file, raw_bads = [''Cz'', ''Fz'']\<rparr>)
          False
          (snd (reject (Some ''v1'') ex_file (Raw \<lparr>filenames0 = ex_file, raw_bads = [''Fz'']\<rparr>)
                  False ex_old_fs))) =
     Inr (Raw \<lparr>filenames0 = ex_file, raw_bads = [''Cz'', ''Fz'']\<rparr>)"
  using reject_raw_bads_union [of ex_old_fs ex_file ex_old_log False "''v1''"
              "\<lparr>filenames0 = ex_file, raw_bads = [''Fz'']\<rparr>"]
  by (simp add: ex_defs io_defs stored_bads_def raw_record_def reject_def reject_branch_def
      reject_raw_def mix_bads_def)

text \<open>
  Claim C1 says that a second \<open>update_log\<close> for the same file name leaves the stored
  record as the first call wrote it. It does not: \<^verbatim>\<open>t_log\<close> is the stored dict itself,
  the assignment to \<^verbatim>\<open>t_log["bads"]\<close> changes it, and \<open>save_log\<close> writes it. After a
  first call with bad channel \<^verbatim>\<open>Cz\<close> and a second with \<^verbatim>\<open>Fz\<close>, the stored record has
  \<^verbatim>\<open>Fz\<close>.
\<close>

theorem update_log_write_once_counterexample:
  "stored_raw
     (snd (update_log (Some ''v1'') ex_file (Raw \<lparr>filenames0 = ex_file, raw_bads = [''Cz'']\<rparr>)
             [ex_file \<mapsto> Data]))
     ex_json ''a_raw.fif'' = Some \<lparr>r_bads = Some [''Cz'']\<rparr> \<and>
   stored_raw
     (snd (update_log (Some ''v1'') ex_file (Raw \<lparr>filenames0 = ex_file, raw_bads = [''Fz'']\<rparr>)
             (snd (update_log (Some ''v1'') ex_file
                     (Raw \<lparr>filenames0 = ex_file, raw_bads = [''Cz'']\<rparr>) [ex_file \<mapsto> Data]))))
     ex_json ''a_raw.fif'' = Some \<lparr>r_bads = Some [''Fz'']\<rparr>"
  by (simp add: ex_defs io_defs stored_raw_def raw_record_def update_log_def update_branch_def
      update_raws_def objects_def dict_get_def set_if_absent_def dump_def)

text \<open>
  Claim C1 as amended. For a file name that already has a record, \<open>update_log\<close>
  succeeds (for epochs and ICA: when the parameter check passes) and stores the data
  of this call in the existing record: the bad channels of a raw recording; the bad
  channels and the selection of an epochs object; the exclude list of an ICA. The
  rest of the record is kept; in particular a stored parameter snapshot stays as it
  was first written.
\<close>

theorem update_log_overwrites_record:
  assumes "fs (get_json_fname fs path) = Some (Json l)" and "version_ok l"
  shows
   "(\<forall>t. raw_record l (name (filenames0 r)) = Some t \<longrightarrow>
       fst (update_log (Some h) path (Raw r) fs) = Inr () \<and>
       stored_raw (snd (update_log (Some h) path (Raw r) fs)) (get_json_fname fs path)
         (name (filenames0 r)) = Some (t\<lparr>r_bads := Some (raw_bads r)\<rparr>)) \<and>
    (\<forall>t c. epochs_record l (name (filename ep)) = Some t \<and>
           check_epochs_params ep t = Inr c \<longrightarrow>
       fst (update_log (Some h) path (Epochs ep) fs) = Inr () \<and>
       stored_epochs (snd (update_log (Some h) path (Epochs ep) fs)) (get_json_fname fs path)
         (name (filename ep)) =
         Some (c\<lparr>e_bads := Some (bads ep), e_selection := Some (selection ep)\<rparr>) \<and>
       (\<forall>p. e_params t = Some p \<longrightarrow> c = t)) \<and>
    (\<forall>t c. ica_record l (name path) = Some t \<and> check_ica_params ica t = Inr c \<longrightarrow>
       fst (update_log (Some h) path (Ica ica) fs) = Inr () \<and>
       stored_ica (snd (update_log (Some h) path (Ica ica) fs)) (get_json_fname fs path)
         (name path) = Some (c\<lparr>i_exclude := Some (exclude ica)\<rparr>) \<and>
       (\<forall>p. i_params t = Some p \<longrightarrow> c = t))"
proof -
  have lj: "load_json fs (get_json_fname fs path) = Inr l"
    using assms(1) by (simp add: load_json_def)
  note ul = update_log_ok[OF lj assms(2)]
  have 1: "\<forall>t. raw_record l (name (filenames0 r)) = Some t \<longrightarrow>
       fst (update_log (Some h) path (Raw r) fs) = Inr () \<and>
       stored_raw (snd (update_log (Some h) path (Raw r) fs)) (get_json_fname fs path)
         (name (filenames0 r)) = Some (t\<lparr>r_bads := Some (raw_bads r)\<rparr>)"
    by (auto simp: ul update_branch_raw stored_upd_same record_after_update raw_or_new_def
        raw_record_def update_conv' split: option.splits)
  have 2: "\<forall>t c. epochs_record l (name (filename ep)) = Some t \<and>
           check_epochs_params ep t = Inr c \<longrightarrow>
       fst (update_log (Some h) path (Epochs ep) fs) = Inr () \<and>
       stored_epochs (snd (update_log (Some h) path (Epochs ep) fs)) (get_json_fname fs path)
         (name (filename ep)) =
         Some (c\<lparr>e_bads := Some (bads ep), e_selection := Some (selection ep)\<rparr>) \<and>
       (\<forall>p. e_params t = Some p \<longrightarrow> c = t)"
  proof (intro allI impI, elim conjE)
    fix t c
    assume t: "epochs_record l (name (filename ep)) = Some t"
      and c: "check_epochs_params ep t = Inr c"
    have e: "epochs_or_empty l (name (filename ep)) = t" using t by (simp add: epochs_or_empty_def)
    have p: "\<forall>p. e_params t = Some p \<longrightarrow> c = t"
      using check_epochs_params_keeps(3)[OF c] by blast
    show "fst (update_log (Some h) path (Epochs ep) fs) = Inr () \<and>
       stored_epochs (snd (update_log (Some h) path (Epochs ep) fs)) (get_json_fname fs path)
         (name (filename ep)) =
         Some (c\<lparr>e_bads := Some (bads ep), e_selection := Some (selection ep)\<rparr>) \<and>
       (\<forall>p. e_params t = Some p \<longrightarrow> c = t)"
      using p by (simp add: ul update_branch_epochs e c stored_upd_same record_after_update)
  qed
  have 3: "\<forall>t c. ica_record l (name path) = Some t \<and> check_ica_params ica t = Inr c \<longrightarrow>
       fst (update_log (Some h) path (Ica ica) fs) = Inr () \<and>
       stored_ica (snd (update_log (Some h) path (Ica ica) fs)) (get_json_fname fs path)
         (name path) = Some (c\<lparr>i_exclude := Some (exclude ica)\<rparr>) \<and>
       (\<forall>p. i_params t = Some p \<longrightarrow> c = t)"
  proof (intro allI impI, elim conjE)
    fix t c
    assume t: "ica_record l (name path) = Some t" and c: "check_ica_params ica t = Inr c"
    have e: "ica_or_empty l (name path) = t" using t by (simp add: ica_or_empty_def)
    have p: "\<forall>p. i_params t = Some p \<longrightarrow> c = t"
      using check_ica_params_keeps(2)[OF c] by blast
    show "fst (update_log (Some h) path (Ica ica) fs) = Inr () \<and>
       stored_ica (snd (update_log (Some h) path (Ica ica) fs)) (get_json_fname fs path)
         (name path) = Some (c\<lparr>i_exclude := Some (exclude ica)\<rparr>) \<and>
       (\<forall>p. i_params t = Some p \<longrightarrow> c = t)"
      using p by (simp add: ul update_branch_ica e c stored_upd_same record_after_update)
  qed
  from 1 2 3 show ?thesis by (intro conjI)
qed

theorem update_log_overwrites_record_witness:
  "ex_old_fs (get_json_fname ex_old_fs ex_file) = Some (Json ex_old_log) \<and>
   version_ok ex_old_log \<and>
   raw_record ex_old_log (name ex_file) = Some \<lparr>r_bads = Some [''Cz'']\<rparr> \<and>
   stored_raw
     (snd (update_log (Some ''v1'') ex_file (Raw \<lparr>filenames0 = ex_file, raw_bads = [''Fz'']\<rparr>)
             ex_old_fs))
     ex_json ''a_raw.fif'' = Some \<lparr>r_bads = Some [''Fz'']\<rparr> \<and>
   epochs_record ex_epochs_logs (name (filename ex_epochs)) = Some ex_epochs_log \<and>
   check_epochs_params ex_epochs ex_epochs_log = Inr ex_epochs_log \<and>
   stored_epochs
     (snd (update_log (Some ''v1'') [''subj'', ''a_epo.fif''] (Epochs ex_epochs) ex_epochs_fs))
     ex_json ''a_epo.fif'' =
     Some (ex_epochs_log\<lparr>e_bads := Some [''Fz''], e_selection := Some [0, 1, 2, 3, 4, 5]\<rparr>) \<and>
   ica_record ex_ica_logs (name ex_ica_file) = Some ex_ica_log \<and>
   check_ica_params ex_ica ex_ica_log = Inr ex_ica_log \<and>
   stored_ica (snd (update_log (Some ''v1'') ex_ica_file (Ica ex_ica) ex_ica_fs))
     ex_json ''a-ica.fif'' = Some (ex_ica_log\<lparr>i_exclude := Some [2]\<rparr>)"
proof -
  have jr: "get_json_fname ex_old_fs ex_file = ex_json"
    and je: "get_json_fname ex_epochs_fs [''subj'', ''a_epo.fif''] = ex_json"
    and ji: "get_json_fname ex_ica_fs ex_ica_file = ex_json"
    by (simp_all add: ex_defs ex_epochs_defs ex_ica_defs get_json_fname_def is_file_def parent_def)
  have r1: "ex_old_fs ex_json = Some (Json ex_old_log)"
    and e1: "ex_epochs_fs ex_json = Some (Json ex_epochs_logs)"
    and i1: "ex_ica_fs ex_json = Some (Json ex_ica_logs)"
    by (simp_all add: ex_old_fs_def ex_epochs_fs_def ex_ica_fs_def)
  have r2: "version_ok ex_old_log" and e2: "version_ok ex_epochs_logs"
    and i2: "version_ok ex_ica_logs"
    by (simp_all add: version_ok_def ex_old_log_def ex_epochs_logs_def ex_ica_logs_def)
  have r3: "raw_record ex_old_log (name ex_file) = Some \<lparr>r_bads = Some [''Cz'']\<rparr>"
    by (simp add: raw_record_def ex_old_log_def name_def ex_file_def)
  have e3: "epochs_record ex_epochs_logs (name (filename ex_epochs)) = Some ex_epochs_log"
    by (simp add: epochs_record_def ex_epochs_logs_def name_def ex_epochs_def)
  have i3: "ica_record ex_ica_logs (name ex_ica_file) = Some ex_ica_log"
    by (simp add: ica_record_def ex_ica_logs_def name_def ex_ica_file_def)
  have e4: "check_epochs_params ex_epochs ex_epochs_log = Inr ex_epochs_log"
    by (simp add: check_epochs_params_def ex_epochs_def ex_epochs_log_def selection_def
        events0_def intersect1d_def Let_def)
  have i4: "check_ica_params ex_ica ex_ica_log = Inr ex_ica_log"
    by (simp add: check_ica_params_def ex_ica_log_def params_of_ica_def)
  have nr: "name ex_file = ''a_raw.fif''" and ne: "name (filename ex_epochs) = ''a_epo.fif''"
    and ni: "name ex_ica_file = ''a-ica.fif''"
    by (simp_all add: name_def ex_file_def ex_epochs_def ex_ica_file_def)
  have be: "bads ex_epochs = [''Fz'']" "selection ex_epochs = [0, 1, 2, 3, 4, 5]"
    and bi: "exclude ex_ica = [2]"
    by (simp_all add: ex_epochs_def ex_ica_def selection_def)
  note R = update_log_overwrites_record [of ex_old_fs ex_file ex_old_log
      "\<lparr>filenames0 = ex_file, raw_bads = [''Fz'']\<rparr>" "''v1''", unfolded jr, OF r1 r2]
  note E = update_log_overwrites_record [of ex_epochs_fs "[''subj'', ''a_epo.fif'']"
      ex_epochs_logs _ "''v1''" ex_epochs, unfolded je, OF e1 e2]
  note I = update_log_overwrites_record [of ex_ica_fs ex_ica_file ex_ica_logs _ "''v1''" _
      ex_ica, unfolded ji, OF i1 i2]
  have R': "stored_raw
     (snd (update_log (Some ''v1'') ex_file (Raw \<lparr>filenames0 = ex_file, raw_bads = [''Fz'']\<rparr>)
             ex_old_fs))
     ex_json ''a_raw.fif'' = Some \<lparr>r_bads = Some [''Fz'']\<rparr>"
    using R r3 by (simp add: nr)
  have E': "stored_epochs
     (snd (update_log (Some ''v1'') [''subj'', ''a_epo.fif''] (Epochs ex_epochs) ex_epochs_fs))
     ex_json ''a_epo.fif'' =
     Some (ex_epochs_log\<lparr>e_bads := Some [''Fz''], e_selection := Some [0, 1, 2, 3, 4, 5]\<rparr>)"
    using E e3 e4 by (simp add: ne be)
  have I': "stored_ica (snd (update_log (Some ''v1'') ex_ica_file (Ica ex_ica) ex_ica_fs))
     ex_json ''a-ica.fif'' = Some (ex_ica_log\<lparr>i_exclude := Some [2]\<rparr>)"
    using I i3 i4 by (simp add: ni bi)
  show ?thesis
    unfolding jr using r1 r2 r3 R' e3 e4 E' i3 i4 I' by (intro conjI)
qed

section \<open>The parameter snapshot\<close>
















section \<open>The log store\<close>

text \<open>
  Claim C9 says that \<open>read_log\<close> heals every record file and that every \<open>save_log\<close>
  leaves the four keys and a version. For a log whose \<^verbatim>\<open>config\<close> is there without a
  \<^verbatim>\<open>version\<close>, both raise \<^verbatim>\<open>KeyError\<close> at \<^verbatim>\<open>logs["config"]["version"]\<close> and write
  nothing: the file keeps its missing keys.
\<close>

theorem read_log_missing_version_counterexample:
  "ex_noversion_fs (get_json_fname ex_noversion_fs ex_file) = Some (Json ex_noversion_log) \<and>
   config ex_noversion_log = Some [] \<and> epochs ex_noversion_log = None \<and>
   fst (read_log (Some ''v1'') ex_file ex_noversion_fs) = Inl KeyError \<and>
   snd (read_log (Some ''v1'') ex_file ex_noversion_fs) ex_json = Some (Json ex_noversion_log) \<and>
   fst (save_log (Some ''v1'') ex_file ex_noversion_log ex_noversion_fs) = Inl KeyError \<and>
   snd (save_log (Some ''v1'') ex_file ex_noversion_log ex_noversion_fs) ex_json =
     Some (Json ex_noversion_log)"
  by (simp add: ex_noversion_fs_def ex_noversion_log_def ex_defs io_defs)

text \<open>
  Claim C9 as amended (self-healing schema). When the version identifier can be
  obtained: for a log file that is absent, or that holds a log whose \<^verbatim>\<open>config\<close>, if
  present, has a \<^verbatim>\<open>version\<close>, \<open>read_log\<close> returns a log with the four keys \<^verbatim>\<open>raws\<close>,
  \<^verbatim>\<open>epochs\<close>, \<^verbatim>\<open>icas\<close> and \<^verbatim>\<open>config\<close>, the last with a \<^verbatim>\<open>version\<close>, and writes exactly
  this log to the file before returning; the keys that were there keep their values,
  the missing mappings are empty, a missing \<^verbatim>\<open>config\<close> holds the current version, and
  the unknown keys are preserved. \<open>save_log\<close> does the same for a log of that kind that
  it is passed.
\<close>

theorem read_log_self_healing:
  "(\<forall>l. fs (get_json_fname fs path) = Some (Json l) \<and> version_ok l \<longrightarrow>
        read_log (Some h) path fs =
          (Inr (healed h l), fs(get_json_fname fs path \<mapsto> Json (healed h l)))) \<and>
   (fs (get_json_fname fs path) = None \<longrightarrow>
        read_log (Some h) path fs =
          (Inr (healed h empty_logs), fs(get_json_fname fs path \<mapsto> Json (healed h empty_logs)))) \<and>
   (\<forall>l. fs (get_json_fname fs path) = Some (Json l) \<and> \<not> version_ok l \<longrightarrow>
        read_log (Some h) path fs = (Inl KeyError, fs)) \<and>
   (version_ok m \<longrightarrow>
        save_log (Some h) path m fs =
          (Inr (healed h m), fs(get_json_fname fs path \<mapsto> Json (healed h m)))) \<and>
   (\<not> version_ok m \<longrightarrow> save_log (Some h) path m fs = (Inl KeyError, fs)) \<and>
   (\<forall>l. version_ok l \<longrightarrow>
        has_schema (healed h l) \<and>
        extra (healed h l) = extra l \<and>
        raws (healed h l) = Some (case raws l of None \<Rightarrow> [] | Some r \<Rightarrow> r) \<and>
        epochs (healed h l) = Some (case epochs l of None \<Rightarrow> [] | Some e \<Rightarrow> e) \<and>
        icas (healed h l) = Some (case icas l of None \<Rightarrow> [] | Some c \<Rightarrow> c) \<and>
        config (healed h l) =
          Some (case config l of None \<Rightarrow> [(''version'', h)] | Some c \<Rightarrow> c))"
proof -
  have 1: "\<forall>l. fs (get_json_fname fs path) = Some (Json l) \<and> version_ok l \<longrightarrow>
        read_log (Some h) path fs =
          (Inr (healed h l), fs(get_json_fname fs path \<mapsto> Json (healed h l)))"
    by (auto intro!: read_log_ok simp: load_json_def)
  have 2: "fs (get_json_fname fs path) = None \<longrightarrow>
        read_log (Some h) path fs =
          (Inr (healed h empty_logs), fs(get_json_fname fs path \<mapsto> Json (healed h empty_logs)))"
    by (auto intro!: read_log_ok simp: load_json_def version_ok_empty)
  have 3: "\<forall>l. fs (get_json_fname fs path) = Some (Json l) \<and> \<not> version_ok l \<longrightarrow>
        read_log (Some h) path fs = (Inl KeyError, fs)"
    by (auto intro!: read_log_no_version)
  have 4: "version_ok m \<longrightarrow>
        save_log (Some h) path m fs =
          (Inr (healed h m), fs(get_json_fname fs path \<mapsto> Json (healed h m)))"
    by (simp add: save_log_ok)
  have 5: "\<not> version_ok m \<longrightarrow> save_log (Some h) path m fs = (Inl KeyError, fs)"
    by (simp add: save_log_no_version)
  have 6: "\<forall>l. version_ok l \<longrightarrow>
        has_schema (healed h l) \<and>
        extra (healed h l) = extra l \<and>
        raws (healed h l) = Some (case raws l of None \<Rightarrow> [] | Some r \<Rightarrow> r) \<and>
        epochs (healed h l) = Some (case epochs l of None \<Rightarrow> [] | Some e \<Rightarrow> e) \<and>
        icas (healed h l) = Some (case icas l of None \<Rightarrow> [] | Some c \<Rightarrow> c) \<and>
        config (healed h l) =
          Some (case config l of None \<Rightarrow> [(''version'', h)] | Some c \<Rightarrow> c)"
    using healed_fields by blast
  from 1 2 3 4 5 6 show ?thesis by (intro conjI)
qed

theorem read_log_self_healing_witness:
  "ex_old_fs (get_json_fname ex_old_fs ex_file) = Some (Json ex_old_log) \<and>
   version_ok ex_old_log \<and>
   read_log (Some ''v1'') ex_file ex_old_fs =
     (Inr ex_healed_log, ex_old_fs(ex_json \<mapsto> Json ex_healed_log)) \<and>
   [ex_file \<mapsto> Data] (get_json_fname [ex_file \<mapsto> Data] ex_file) = None \<and>
   read_log (Some ''v1'') ex_file [ex_file \<mapsto> Data] =
     (Inr ex_new_log, [ex_file \<mapsto> Data, ex_json \<mapsto> Json ex_new_log]) \<and>
   save_log (Some ''v1'') ex_file ex_old_log ex_old_fs =
     (Inr ex_healed_log, ex_old_fs(ex_json \<mapsto> Json ex_healed_log)) \<and>
   \<not> version_ok ex_noversion_log \<and>
   save_log (Some ''v1'') ex_file ex_noversion_log ex_old_fs = (Inl KeyError, ex_old_fs) \<and>
   has_schema ex_healed_log \<and> extra ex_healed_log = extra ex_old_log"
proof -
  have f1: "ex_old_fs ex_json = Some (Json ex_old_log)" by (simp add: ex_old_fs_def)
  have f2: "[ex_file \<mapsto> Data] ex_json = None" by (simp add: ex_file_def ex_json_def)
  note A = read_log_self_healing [of ex_old_fs ex_file "''v1''" ex_old_log, unfolded ex_json_fname]
  note B = read_log_self_healing [of "[ex_file \<mapsto> Data]" ex_file "''v1''" ex_noversion_log,
      unfolded ex_json_fname]
  note C = read_log_self_healing [of ex_old_fs ex_file "''v1''" ex_noversion_log, unfolded ex_json_fname]
  have r1: "read_log (Some ''v1'') ex_file ex_old_fs =
     (Inr ex_healed_log, ex_old_fs(ex_json \<mapsto> Json ex_healed_log))"
    using A[THEN conjunct1, rule_format, of ex_old_log] f1 ex_version_ok(1)
    by (simp add: ex_healed)
  have r2: "read_log (Some ''v1'') ex_file [ex_file \<mapsto> Data] =
     (Inr ex_new_log, [ex_file \<mapsto> Data, ex_json \<mapsto> Json ex_new_log])"
    using B[THEN conjunct2, THEN conjunct1] f2 by (simp add: ex_healed)
  have s1: "save_log (Some ''v1'') ex_file ex_old_log ex_old_fs =
     (Inr ex_healed_log, ex_old_fs(ex_json \<mapsto> Json ex_healed_log))"
    using A[THEN conjunct2, THEN conjunct2, THEN conjunct2, THEN conjunct1] ex_version_ok(1)
    by (simp add: ex_healed)
  have s2: "save_log (Some ''v1'') ex_file ex_noversion_log ex_old_fs = (Inl KeyError, ex_old_fs)"
    using C[THEN conjunct2, THEN conjunct2, THEN conjunct2, THEN conjunct2, THEN conjunct1]
      ex_version_ok(2) by simp
  have h: "has_schema ex_healed_log \<and> extra ex_healed_log = extra ex_old_log"
    using A[THEN conjunct2, THEN conjunct2, THEN conjunct2, THEN conjunct2, THEN conjunct2,
        rule_format, of ex_old_log] ex_version_ok(1)
    by (simp add: ex_healed)
  show ?thesis
    unfolding ex_json_fname using f1 f2 ex_version_ok r1 r2 s1 s2 h by (intro conjI) simp_all
qed

lemma update_log_unrecognised_eq:
  "update_log git path Unrecognised fs =
     (case read_log git path fs of
        (Inl e, fs1) \<Rightarrow> (Inl e, fs1)
      | (Inr l, fs1) \<Rightarrow> (Inr (), fs1))"
proof -
  obtain r fs1 where rl: "read_log git path fs = (r, fs1)" by (cases "read_log git path fs")
  from read_log_cases[OF rl] show ?thesis
  proof (elim disjE conjE exE)
    fix e assume "fs1 = fs" "r = Inl e"
    with rl show ?thesis by (simp add: update_log_def)
  next
    fix h l
    assume a: "git = Some h" "load_json fs (get_json_fname fs path) = Inr l" "version_ok l"
      "r = Inr (healed h l)" "fs1 = fs(get_json_fname fs path \<mapsto> Json (healed h l))"
    show ?thesis
      by (simp add: a(1) update_log_ok[OF a(2,3)] read_log_ok[OF a(2,3)] update_branch_def)
  qed
qed

lemma update_log_records:
  "stored_raw (snd (update_log git path Unrecognised fs)) q f = stored_raw fs q f"
  "stored_epochs (snd (update_log git path Unrecognised fs)) q f = stored_epochs fs q f"
  "stored_ica (snd (update_log git path Unrecognised fs)) q f = stored_ica fs q f"
proof -
  obtain r fs1 where rl: "read_log git path fs = (r, fs1)" by (cases "read_log git path fs")
  have s: "snd (update_log git path Unrecognised fs) = fs1"
    by (cases r) (simp_all add: update_log_unrecognised_eq rl)
  note fr = read_log_frame[OF rl]
  show "stored_raw (snd (update_log git path Unrecognised fs)) q f = stored_raw fs q f"
    unfolding s by (rule fr(2))
  show "stored_epochs (snd (update_log git path Unrecognised fs)) q f = stored_epochs fs q f"
    unfolding s by (rule fr(3))
  show "stored_ica (snd (update_log git path Unrecognised fs)) q f = stored_ica fs q f"
    unfolding s by (rule fr(4))
qed

text \<open>
  Claim C10 says that \<open>update_log\<close> raises no error for an object of no recognised
  type. It raises what \<open>read_log\<close> raises: with a log whose \<^verbatim>\<open>config\<close> has no
  \<^verbatim>\<open>version\<close>, the \<^verbatim>\<open>KeyError\<close>.
\<close>

theorem update_log_unrecognised_raises_counterexample:
  "ex_noversion_fs (get_json_fname ex_noversion_fs ex_file) = Some (Json ex_noversion_log) \<and>
   fst (update_log (Some ''v1'') ex_file Unrecognised ex_noversion_fs) = Inl KeyError"
  by (simp add: ex_noversion_fs_def ex_noversion_log_def ex_defs io_defs update_log_def)

text \<open>
  Claim C10 as amended (unrecognised artifact). For an object that is none of the
  three MNE types, \<open>update_log\<close> raises no error of its own: it fails exactly where
  \<open>read_log\<close> fails and otherwise returns normally, leaving the file system as
  \<open>read_log\<close> alone leaves it. In particular, when the version identifier can be
  obtained and the log is absent or holds a log whose \<^verbatim>\<open>config\<close>, if present, has a
  \<^verbatim>\<open>version\<close>, it returns and the file then holds the completed log (created when there
  was none). In every case no record of any file name is added or changed.
\<close>

theorem update_log_unrecognised:
  "update_log git path Unrecognised fs =
     (case read_log git path fs of
        (Inl e, fs1) \<Rightarrow> (Inl e, fs1)
      | (Inr l, fs1) \<Rightarrow> (Inr (), fs1)) \<and>
   (\<forall>l. fs (get_json_fname fs path) = Some (Json l) \<and> version_ok l \<longrightarrow>
        update_log (Some h) path Unrecognised fs =
          (Inr (), fs(get_json_fname fs path \<mapsto> Json (healed h l)))) \<and>
   (fs (get_json_fname fs path) = None \<longrightarrow>
        update_log (Some h) path Unrecognised fs =
          (Inr (), fs(get_json_fname fs path \<mapsto> Json (healed h empty_logs)))) \<and>
   (\<forall>l. fs (get_json_fname fs path) = Some (Json l) \<and> \<not> version_ok l \<longrightarrow>
        update_log (Some h) path Unrecognised fs = (Inl KeyError, fs)) \<and>
   (\<forall>q f. stored_raw (snd (update_log git path Unrecognised fs)) q f = stored_raw fs q f \<and>
          stored_epochs (snd (update_log git path Unrecognised fs)) q f = stored_epochs fs q f \<and>
          stored_ica (snd (update_log git path Unrecognised fs)) q f = stored_ica fs q f) \<and>
   (\<forall>l. version_ok l \<longrightarrow>
        extra (healed h l) = extra l \<and>
        raws (healed h l) = Some (case raws l of None \<Rightarrow> [] | Some r \<Rightarrow> r) \<and>
        epochs (healed h l) = Some (case epochs l of None \<Rightarrow> [] | Some e \<Rightarrow> e) \<and>
        icas (healed h l) = Some (case icas l of None \<Rightarrow> [] | Some c \<Rightarrow> c) \<and>
        config (healed h l) =
          Some (case config l of None \<Rightarrow> [(''version'', h)] | Some c \<Rightarrow> c))"
proof -
  have 2: "\<forall>l. fs (get_json_fname fs path) = Some (Json l) \<and> version_ok l \<longrightarrow>
        update_log (Some h) path Unrecognised fs =
          (Inr (), fs(get_json_fname fs path \<mapsto> Json (healed h l)))"
  proof (intro allI impI, elim conjE)
    fix l assume a: "fs (get_json_fname fs path) = Some (Json l)" "version_ok l"
    have lj: "load_json fs (get_json_fname fs path) = Inr l" using a(1) by (simp add: load_json_def)
    show "update_log (Some h) path Unrecognised fs =
          (Inr (), fs(get_json_fname fs path \<mapsto> Json (healed h l)))"
      by (simp add: update_log_ok[OF lj a(2)] update_branch_def)
  qed
  have 3: "fs (get_json_fname fs path) = None \<longrightarrow>
        update_log (Some h) path Unrecognised fs =
          (Inr (), fs(get_json_fname fs path \<mapsto> Json (healed h empty_logs)))"
  proof
    assume a: "fs (get_json_fname fs path) = None"
    have lj: "load_json fs (get_json_fname fs path) = Inr empty_logs"
      using a by (simp add: load_json_def)
    show "update_log (Some h) path Unrecognised fs =
          (Inr (), fs(get_json_fname fs path \<mapsto> Json (healed h empty_logs)))"
      by (simp add: update_log_ok[OF lj version_ok_empty] update_branch_def)
  qed
  have 4: "\<forall>l. fs (get_json_fname fs path) = Some (Json l) \<and> \<not> version_ok l \<longrightarrow>
        update_log (Some h) path Unrecognised fs = (Inl KeyError, fs)"
    by (auto simp: update_log_unrecognised_eq read_log_no_version)
  have 5: "\<forall>q f. stored_raw (snd (update_log git path Unrecognised fs)) q f = stored_raw fs q f \<and>
          stored_epochs (snd (update_log git path Unrecognised fs)) q f = stored_epochs fs q f \<and>
          stored_ica (snd (update_log git path Unrecognised fs)) q f = stored_ica fs q f"
    by (simp add: update_log_records)
  have 6: "\<forall>l. version_ok l \<longrightarrow>
        extra (healed h l) = extra l \<and>
        raws (healed h l) = Some (case raws l of None \<Rightarrow> [] | Some r \<Rightarrow> r) \<and>
        epochs (healed h l) = Some (case epochs l of None \<Rightarrow> [] | Some e \<Rightarrow> e) \<and>
        icas (healed h l) = Some (case icas l of None \<Rightarrow> [] | Some c \<Rightarrow> c) \<and>
        config (healed h l) =
          Some (case config l of None \<Rightarrow> [(''version'', h)] | Some c \<Rightarrow> c)"
    using healed_fields by blast
  from update_log_unrecognised_eq[of git path fs] 2 3 4 5 6 show ?thesis by (intro conjI)
qed

theorem update_log_unrecognised_witness:
  "ex_old_fs (get_json_fname ex_old_fs ex_file) = Some (Json ex_old_log) \<and>
   version_ok ex_old_log \<and>
   update_log (Some ''v1'') ex_file Unrecognised ex_old_fs =
     (Inr (), ex_old_fs(ex_json \<mapsto> Json ex_healed_log)) \<and>
   stored_raw ex_old_fs ex_json ''a_raw.fif'' = Some \<lparr>r_bads = Some [''Cz'']\<rparr> \<and>
   stored_raw (snd (update_log (Some ''v1'') ex_file Unrecognised ex_old_fs)) ex_json
     ''a_raw.fif'' = Some \<lparr>r_bads = Some [''Cz'']\<rparr> \<and>
   [ex_file \<mapsto> Data] (get_json_fname [ex_file \<mapsto> Data] ex_file) = None \<and>
   update_log (Some ''v1'') ex_file Unrecognised [ex_file \<mapsto> Data] =
     (Inr (), [ex_file \<mapsto> Data, ex_json \<mapsto> Json ex_new_log])"
proof -
  have f1: "ex_old_fs ex_json = Some (Json ex_old_log)" by (simp add: ex_old_fs_def)
  have f2: "[ex_file \<mapsto> Data] ex_json = None" by (simp add: ex_file_def ex_json_def)
  have f3: "stored_raw ex_old_fs ex_json ''a_raw.fif'' = Some \<lparr>r_bads = Some [''Cz'']\<rparr>"
    by (simp add: stored_raw_def f1 raw_record_def ex_old_log_def)
  note A = update_log_unrecognised [of "Some ''v1''" ex_file ex_old_fs "''v1''", unfolded ex_json_fname]
  note B = update_log_unrecognised [of "Some ''v1''" ex_file "[ex_file \<mapsto> Data]" "''v1''", unfolded ex_json_fname]
  have u1: "update_log (Some ''v1'') ex_file Unrecognised ex_old_fs =
     (Inr (), ex_old_fs(ex_json \<mapsto> Json ex_healed_log))"
    using A[THEN conjunct2, THEN conjunct1, rule_format, of ex_old_log] f1 ex_version_ok(1)
    by (simp add: ex_healed)
  have u2: "stored_raw (snd (update_log (Some ''v1'') ex_file Unrecognised ex_old_fs)) ex_json
     ''a_raw.fif'' = Some \<lparr>r_bads = Some [''Cz'']\<rparr>"
    using A[THEN conjunct2, THEN conjunct2, THEN conjunct2, THEN conjunct2, THEN conjunct1,
        rule_format, of ex_json "''a_raw.fif''"] f3 by simp
  have u3: "update_log (Some ''v1'') ex_file Unrecognised [ex_file \<mapsto> Data] =
     (Inr (), [ex_file \<mapsto> Data, ex_json \<mapsto> Json ex_new_log])"
    using B[THEN conjunct2, THEN conjunct2, THEN conjunct1] f2 by (simp add: ex_healed)
  show ?thesis
    unfolding ex_json_fname using f1 f2 f3 ex_version_ok(1) u1 u2 u3 by (intro conjI)
qed

end
